theory Spec2Isabelle
  imports Main
begin

section \<open>JavaScript values used by the date picker\<close>

text \<open>
  A JavaScript string is a sequence of UTF-16 code units; \<open>padStart\<close> and \<open>split("")\<close>
  count code units.  Every Devanagari letter and digit of the source is one code unit, so a
  string is modelled as the list of its code units.  Numbers are the integers the component
  handles (years, month indices, day numbers), modelled as unbounded \<open>int\<close>.
\<close>

type_synonym jsstring = "nat list"

definition asc :: "string \<Rightarrow> jsstring" where
  "asc s = map of_char s"

text \<open>The remainder operator \<open>%\<close> truncates towards zero: the result has the dividend's sign.\<close>

definition js_rem :: "int \<Rightarrow> int \<Rightarrow> int" where
  "js_rem a b = sgn a * (\<bar>a\<bar> mod \<bar>b\<bar>)"

text \<open>\<open>xs[i]\<close> is \<open>undefined\<close> outside the array; \<open>a || b\<close> takes \<open>b\<close> when \<open>a\<close> is
  \<open>undefined\<close> or the empty string.\<close>

definition js_index :: "'a list \<Rightarrow> int \<Rightarrow> 'a option" where
  "js_index xs i = (if 0 \<le> i \<and> i < int (length xs) then Some (xs ! nat i) else None)"

definition js_or :: "jsstring option \<Rightarrow> jsstring option \<Rightarrow> jsstring option" where
  "js_or a b = (case a of None \<Rightarrow> b | Some s \<Rightarrow> if s = [] then b else Some s)"

text \<open>A template literal prints \<open>undefined\<close> by name.\<close>

definition js_show :: "jsstring option \<Rightarrow> jsstring" where
  "js_show a = (case a of None \<Rightarrow> asc ''undefined'' | Some s \<Rightarrow> s)"

fun digitsOf :: "nat \<Rightarrow> nat list" where
  "digitsOf n = (if n < 10 then [n] else digitsOf (n div 10) @ [n mod 10])"

declare digitsOf.simps [simp del]

definition js_toString :: "int \<Rightarrow> jsstring" where
  "js_toString i =
     (if i < 0 then of_char CHR ''-'' # map (\<lambda>d. 48 + d) (digitsOf (nat (- i)))
      else map (\<lambda>d. 48 + d) (digitsOf (nat i)))"

definition padStart :: "nat \<Rightarrow> jsstring \<Rightarrow> jsstring \<Rightarrow> jsstring" where
  "padStart n fill s =
     take (n - length s) (concat (replicate (n - length s) fill)) @ s"

section \<open>Ordinal suffix\<close>

definition suffixes :: "jsstring list" where
  "suffixes = [asc ''th'', asc ''st'', asc ''nd'', asc ''rd'']"

definition getOrdinalSuffix :: "int \<Rightarrow> jsstring" where
  "getOrdinalSuffix day =
     (let v = js_rem day 100
      in js_show (js_or (js_or (js_index suffixes (js_rem (v - 20) 10)) (js_index suffixes v))
                        (js_index suffixes 0)))"


section \<open>The built-in Date\<close>

text \<open>
  A \<open>Date\<close> is used by the component as a calendar day in local time; only
  \<open>getFullYear\<close>, \<open>getMonth\<close> (0 to 11) and \<open>getDate\<close> are read, so a valid
  \<open>Date\<close> is modelled by these three fields.  Time of day, time zones and the limits of the
  time value are outside the model.
\<close>

record js_date =
  adYear :: int
  adMonth :: int
  adDate :: int

definition isLeapYear :: "int \<Rightarrow> bool" where
  "isLeapYear y = (y mod 4 = 0 \<and> (y mod 100 \<noteq> 0 \<or> y mod 400 = 0))"

definition daysInAdMonth :: "int \<Rightarrow> int \<Rightarrow> int" where
  "daysInAdMonth y m =
     (if m = 1 then (if isLeapYear y then 29 else 28)
      else if m = 3 \<or> m = 5 \<or> m = 8 \<or> m = 10 then 30 else 31)"

text \<open>
  \<open>new Date(year, month, day)\<close> accepts any integers: the month is carried into the year
  by floor division, and the day is counted from the first of that month across month
  boundaries (day 0 is the last day of the month before).  A year argument from 0 to 99 is
  read as 1900 + year.
\<close>

function js_forward :: "int \<Rightarrow> int \<Rightarrow> int \<Rightarrow> js_date" where
  "js_forward y m d =
     (if daysInAdMonth y m < d
      then (if m = 11 then js_forward (y + 1) 0 (d - daysInAdMonth y m)
            else js_forward y (m + 1) (d - daysInAdMonth y m))
      else \<lparr>adYear = y, adMonth = m, adDate = d\<rparr>)"
  by pat_completeness auto
termination
  by (relation "measure (\<lambda>(y, m, d). nat d)")
     (auto simp: daysInAdMonth_def split: if_splits)

function js_backward :: "int \<Rightarrow> int \<Rightarrow> int \<Rightarrow> js_date" where
  "js_backward y m d =
     (if d < 1
      then (if m = 0 then js_backward (y - 1) 11 (d + daysInAdMonth (y - 1) 11)
            else js_backward y (m - 1) (d + daysInAdMonth y (m - 1)))
      else \<lparr>adYear = y, adMonth = m, adDate = d\<rparr>)"
  by pat_completeness auto
termination
  by (relation "measure (\<lambda>(y, m, d). nat (1 - d))")
     (auto simp: daysInAdMonth_def split: if_splits)

declare js_forward.simps [simp del] js_backward.simps [simp del]

definition twoDigitYear :: "int \<Rightarrow> bool" where
  "twoDigitYear y = (0 \<le> y \<and> y \<le> 99)"

definition js_Date :: "int \<Rightarrow> int \<Rightarrow> int \<Rightarrow> js_date" where
  "js_Date y m d =
     (let yr = (if twoDigitYear y then 1900 + y else y);
          ym = yr + m div 12;
          mn = m mod 12
      in if d < 1 then js_backward ym mn d else js_forward ym mn d)"

section \<open>The calendar oracle and NepaliDate\<close>

text \<open>
  Modelled from the spec: the calendar oracle.  The class \<open>NepaliDate\<close> comes from the
  package \<open>nepali-date-converter\<close>, which is not part of the repository.  Its conversion
  data is a parameter: the length of every Bikram Sambat month (not positive for a year
  outside the supported era), the conversions between the two calendars, the parsers of the
  two string constructors (\<open>NepaliDate\<close> and \<open>Date\<close>) and the current day.
\<close>

record calendar_oracle =
  daysInBsMonth :: "int \<Rightarrow> int \<Rightarrow> int"
  bsToAd :: "int \<Rightarrow> int \<Rightarrow> int \<Rightarrow> js_date"
  adToBs :: "js_date \<Rightarrow> (int \<times> int \<times> int) option"
  parseBs :: "string \<Rightarrow> (int \<times> int \<times> int) option"
  parseAd :: "string \<Rightarrow> js_date option"
  today :: js_date

text \<open>
  The package throws plain \<open>Error\<close> objects; they are named after the failures of the
  specification.  Nothing in the component raises \<open>DayOutOfRange\<close>.
\<close>

datatype error = InvalidDateString | DayOutOfRange | UnsupportedEra

definition bindE :: "error + 'a \<Rightarrow> ('a \<Rightarrow> error + 'b) \<Rightarrow> error + 'b" where
  "bindE r f = (case r of Inl e \<Rightarrow> Inl e | Inr x \<Rightarrow> f x)"

text \<open>A \<open>NepaliDate\<close> object holds its Bikram Sambat fields (month 0 to 11) and the
  \<open>Date\<close> that \<open>toJsDate\<close> returns.\<close>

record nepali_date =
  bsYear :: int
  bsMonth :: int
  bsDate :: int
  toJsDate :: js_date

text \<open>
  Modelled from the spec: the constructor \<open>new NepaliDate(year, month, day)\<close>.  It
  normalises its arguments as \<open>Date\<close> does, over the oracle's month lengths, and throws
  once it meets a month outside the supported era.  The component relies on the
  normalisation: it asks for day 0 of the following month to get the last day of a month.
\<close>

function bs_forward :: "(int \<Rightarrow> int \<Rightarrow> int) \<Rightarrow> int \<Rightarrow> int \<Rightarrow> int \<Rightarrow> error + (int \<times> int \<times> int)" where
  "bs_forward dim y m d =
     (if dim y m \<le> 0 then Inl UnsupportedEra
      else if dim y m < d
      then (if m = 11 then bs_forward dim (y + 1) 0 (d - dim y m)
            else bs_forward dim y (m + 1) (d - dim y m))
      else Inr (y, m, d))"
  by pat_completeness auto
termination
  by (relation "measure (\<lambda>(dim, y, m, d). nat d)") auto

function bs_backward :: "(int \<Rightarrow> int \<Rightarrow> int) \<Rightarrow> int \<Rightarrow> int \<Rightarrow> int \<Rightarrow> error + (int \<times> int \<times> int)" where
  "bs_backward dim y m d =
     (if d < 1
      then (let y' = (if m = 0 then y - 1 else y); m' = (if m = 0 then 11 else m - 1)
            in if dim y' m' \<le> 0 then Inl UnsupportedEra
               else bs_backward dim y' m' (d + dim y' m'))
      else Inr (y, m, d))"
  by pat_completeness auto
termination
  by (relation "measure (\<lambda>(dim, y, m, d). nat (1 - d))") auto

declare bs_forward.simps [simp del] bs_backward.simps [simp del]

definition NepaliDate_ymd :: "calendar_oracle \<Rightarrow> int \<Rightarrow> int \<Rightarrow> int \<Rightarrow> error + nepali_date" where
  "NepaliDate_ymd orc y m d =
     (let ym = y + m div 12; mn = m mod 12
      in if daysInBsMonth orc ym mn \<le> 0 then Inl UnsupportedEra
         else bindE (if d < 1 then bs_backward (daysInBsMonth orc) ym mn d
                     else bs_forward (daysInBsMonth orc) ym mn d)
                (\<lambda>(y', m', d').
                   Inr \<lparr>bsYear = y', bsMonth = m', bsDate = d', toJsDate = bsToAd orc y' m' d'\<rparr>))"

definition NepaliDate_of_Date :: "calendar_oracle \<Rightarrow> js_date \<Rightarrow> error + nepali_date" where
  "NepaliDate_of_Date orc g =
     (case adToBs orc g of
        None \<Rightarrow> Inl UnsupportedEra
      | Some (y, m, d) \<Rightarrow> Inr \<lparr>bsYear = y, bsMonth = m, bsDate = d, toJsDate = g\<rparr>)"

definition NepaliDate_of_string :: "calendar_oracle \<Rightarrow> string \<Rightarrow> error + nepali_date" where
  "NepaliDate_of_string orc s =
     (case parseBs orc s of
        None \<Rightarrow> Inl InvalidDateString
      | Some (y, m, d) \<Rightarrow> NepaliDate_ymd orc y m d)"

section \<open>Formatting\<close>

datatype language = Np | En

text \<open>The ten layouts of \<open>DateFormat\<close>; \<open>Other_format\<close> stands for a string outside the
  union, which only an untyped caller can pass.\<close>

datatype DateFormat =
    YYYY_MM_DD_slash | DD_MM_YYYY_slash | MM_DD_YYYY_slash
  | YYYY_MM_DD_dash | MM_DD_YYYY_dash | DD_MM_YYYY_dash
  | MMM_DD_YYYY | DD_MMM_YYYY | MMMM_DD_YYYY | DDth_MMMM_YYYY
  | Other_format

definition MONTH_NAMES_en :: "jsstring list" where
  "MONTH_NAMES_en =
     [asc ''January'', asc ''February'', asc ''March'', asc ''April'', asc ''May'', asc ''June'',
      asc ''July'', asc ''August'', asc ''September'', asc ''October'', asc ''November'',
      asc ''December'']"

definition MONTH_NAMES_np :: "jsstring list" where
  "MONTH_NAMES_np =
     [[2348, 2376, 2358, 2366, 2326], [2332, 2375, 2336], [2309, 2360, 2366, 2352],
      [2360, 2366, 2357, 2344], [2349, 2342, 2380], [2309, 2360, 2379, 2332],
      [2325, 2366, 2352, 2381, 2340, 2367, 2325], [2350, 2306, 2360, 2367, 2352],
      [2346, 2380, 2359], [2350, 2366, 2328], [2347, 2366, 2327, 2369, 2344],
      [2330, 2376, 2340]]"

text \<open>The Devanagari digits, U+0966 to U+096F.\<close>

definition NEPALI_NUMERALS :: "jsstring list" where
  "NEPALI_NUMERALS =
     [[2406], [2407], [2408], [2409], [2410], [2411], [2412], [2413], [2414], [2415]]"

text \<open>\<open>parseInt\<close> of a one-character string: \<open>NaN\<close> unless it is a digit.\<close>

definition parseInt_char :: "nat \<Rightarrow> int option" where
  "parseInt_char c = (if 48 \<le> c \<and> c \<le> 57 then Some (int c - 48) else None)"

text \<open>\<open>join\<close> prints an \<open>undefined\<close> element as the empty string.\<close>

definition toNepaliNumeral :: "int \<Rightarrow> jsstring" where
  "toNepaliNumeral num =
     concat (map (\<lambda>digit. case parseInt_char digit of
                             None \<Rightarrow> []
                           | Some i \<Rightarrow> (case js_index NEPALI_NUMERALS i of None \<Rightarrow> [] | Some g \<Rightarrow> g))
                 (js_toString num))"

text \<open>The month names that \<open>toLocaleDateString\<close> and \<open>toLocaleString\<close> print for
  \<open>en-US\<close>: the short ones here, the long ones as in \<open>MONTH_NAMES_en\<close>.\<close>

definition SHORT_MONTHS_en :: "jsstring list" where
  "SHORT_MONTHS_en =
     [asc ''Jan'', asc ''Feb'', asc ''Mar'', asc ''Apr'', asc ''May'', asc ''Jun'',
      asc ''Jul'', asc ''Aug'', asc ''Sep'', asc ''Oct'', asc ''Nov'', asc ''Dec'']"

definition shortMonth :: "js_date \<Rightarrow> jsstring" where
  "shortMonth g = js_show (js_index SHORT_MONTHS_en (adMonth g))"

definition longMonth :: "js_date \<Rightarrow> jsstring" where
  "longMonth g = js_show (js_index MONTH_NAMES_en (adMonth g))"

definition formatGregorianDate :: "js_date \<Rightarrow> DateFormat \<Rightarrow> jsstring" where
  "formatGregorianDate g format =
     (let month = padStart 2 (asc ''0'') (js_toString (adMonth g + 1));
          day = padStart 2 (asc ''0'') (js_toString (adDate g));
          year = js_toString (adYear g);
          short = shortMonth g @ asc '' '' @ day @ asc '', '' @ year
      in case format of
           MM_DD_YYYY_slash \<Rightarrow> month @ asc ''/'' @ day @ asc ''/'' @ year
         | DD_MM_YYYY_slash \<Rightarrow> day @ asc ''/'' @ month @ asc ''/'' @ year
         | YYYY_MM_DD_slash \<Rightarrow> year @ asc ''/'' @ month @ asc ''/'' @ day
         | YYYY_MM_DD_dash \<Rightarrow> year @ asc ''-'' @ month @ asc ''-'' @ day
         | MM_DD_YYYY_dash \<Rightarrow> month @ asc ''-'' @ day @ asc ''-'' @ year
         | DD_MM_YYYY_dash \<Rightarrow> day @ asc ''-'' @ month @ asc ''-'' @ year
         | MMM_DD_YYYY \<Rightarrow> short
         | DD_MMM_YYYY \<Rightarrow> short
         | MMMM_DD_YYYY \<Rightarrow> longMonth g @ asc '' '' @ day @ asc '', '' @ year
         | DDth_MMMM_YYYY \<Rightarrow>
             js_toString (adDate g) @ getOrdinalSuffix (adDate g) @ asc '' '' @ longMonth g
               @ asc '', '' @ year
         | Other_format \<Rightarrow> year @ asc ''-'' @ month @ asc ''-'' @ day)"

definition formatNepaliDate :: "int \<Rightarrow> int \<Rightarrow> int \<Rightarrow> DateFormat \<Rightarrow> jsstring" where
  "formatNepaliDate year month day format =
     (let nepaliYear = padStart 2 [2406] (toNepaliNumeral year);
          nepaliMonth = padStart 2 [2406] (toNepaliNumeral month);
          nepaliDay = padStart 2 [2406] (toNepaliNumeral day);
          monthName = js_show (js_index MONTH_NAMES_np month);
          ordinalDay = nepaliDay @ getOrdinalSuffix day
      in case format of
           YYYY_MM_DD_slash \<Rightarrow> nepaliYear @ asc ''/'' @ nepaliMonth @ asc ''/'' @ nepaliDay
         | DD_MM_YYYY_slash \<Rightarrow> nepaliDay @ asc ''/'' @ nepaliMonth @ asc ''/'' @ nepaliYear
         | MM_DD_YYYY_slash \<Rightarrow> nepaliMonth @ asc ''/'' @ nepaliDay @ asc ''/'' @ nepaliYear
         | YYYY_MM_DD_dash \<Rightarrow> nepaliYear @ asc ''-'' @ nepaliMonth @ asc ''-'' @ nepaliDay
         | MM_DD_YYYY_dash \<Rightarrow> nepaliMonth @ asc ''-'' @ nepaliDay @ asc ''-'' @ nepaliYear
         | DD_MM_YYYY_dash \<Rightarrow> nepaliDay @ asc ''-'' @ nepaliMonth @ asc ''-'' @ nepaliYear
         | MMM_DD_YYYY \<Rightarrow> monthName @ asc '' '' @ nepaliDay @ asc '', '' @ nepaliYear
         | DD_MMM_YYYY \<Rightarrow> nepaliDay @ asc '' '' @ monthName @ asc '' '' @ nepaliYear
         | MMMM_DD_YYYY \<Rightarrow> monthName @ asc '' '' @ nepaliDay @ asc '', '' @ nepaliYear
         | DDth_MMMM_YYYY \<Rightarrow> ordinalDay @ asc '' '' @ monthName @ asc '', '' @ nepaliYear
         | Other_format \<Rightarrow> nepaliYear @ asc ''-'' @ nepaliMonth @ asc ''-'' @ nepaliDay)"

text \<open>The selected date is a \<open>NepaliDate\<close>, a \<open>Date\<close> or \<open>null\<close>.\<close>

datatype selected = NepaliSel nepali_date | DateSel js_date

definition getMonth :: "selected \<Rightarrow> int" where
  "getMonth s = (case s of NepaliSel n \<Rightarrow> bsMonth n | DateSel g \<Rightarrow> adMonth g)"

definition getDate :: "selected \<Rightarrow> int" where
  "getDate s = (case s of NepaliSel n \<Rightarrow> bsDate n | DateSel g \<Rightarrow> adDate g)"

definition formatDate ::
  "calendar_oracle \<Rightarrow> selected option \<Rightarrow> language \<Rightarrow> DateFormat \<Rightarrow> error + jsstring" where
  "formatDate orc date lang format =
     (case date of
        None \<Rightarrow> Inr []
      | Some s \<Rightarrow>
          (if lang = En
           then Inr (formatGregorianDate (case s of DateSel g \<Rightarrow> g | NepaliSel n \<Rightarrow> toJsDate n)
                       format)
           else bindE (case s of NepaliSel n \<Rightarrow> Inr (bsYear n)
                               | DateSel g \<Rightarrow> bindE (NepaliDate_of_Date orc g) (\<lambda>n. Inr (bsYear n)))
                  (\<lambda>nepaliYear. Inr (formatNepaliDate nepaliYear (getMonth s) (getDate s) format))))"

section \<open>The picker state and its operations\<close>

record picker =
  selectedDate :: "selected option"
  nepali :: nepali_date
  gregorian :: js_date
  isOpen :: bool

text \<open>
  The two state initialisers.  An empty \<open>defaultValue\<close> is falsy and is treated as an absent
  one.  A \<open>Date\<close> built from a string that \<open>Date\<close> cannot read is an Invalid Date, which
  the \<open>NepaliDate\<close> constructor cannot take.
\<close>

definition init :: "calendar_oracle \<Rightarrow> string option \<Rightarrow> language \<Rightarrow> error + picker" where
  "init orc defaultValue language =
     (case (case defaultValue of None \<Rightarrow> None | Some s \<Rightarrow> if s = [] then None else Some s) of
        Some s \<Rightarrow>
          bindE (NepaliDate_of_string orc s) (\<lambda>nepaliDate.
            if language = Np
            then Inr \<lparr>selectedDate = Some (NepaliSel nepaliDate), nepali = nepaliDate,
                      gregorian = toJsDate nepaliDate, isOpen = False\<rparr>
            else (case parseAd orc s of
                    None \<Rightarrow> Inl InvalidDateString
                  | Some gregorianDate \<Rightarrow>
                      bindE (NepaliDate_of_Date orc gregorianDate) (\<lambda>n.
                        Inr \<lparr>selectedDate = Some (DateSel gregorianDate), nepali = n,
                             gregorian = gregorianDate, isOpen = False\<rparr>)))
      | None \<Rightarrow>
          bindE (NepaliDate_of_Date orc (today orc)) (\<lambda>nowNepali.
            Inr \<lparr>selectedDate = None, nepali = nowNepali, gregorian = today orc,
                 isOpen = False\<rparr>))"

text \<open>What \<open>onDateChange\<close> receives.\<close>

record report =
  english :: jsstring
  nepali_text :: jsstring

definition handleDateSelect ::
  "calendar_oracle \<Rightarrow> language \<Rightarrow> DateFormat \<Rightarrow> picker \<Rightarrow> int \<Rightarrow> error + (picker \<times> report)" where
  "handleDateSelect orc language format p day =
     bindE (NepaliDate_ymd orc (bsYear (nepali p)) (bsMonth (nepali p)) day) (\<lambda>newNepaliDate.
       let newGregorianDate = js_Date (adYear (gregorian p)) (adMonth (gregorian p)) day
       in bindE (formatDate orc (Some (DateSel newGregorianDate)) En format) (\<lambda>e.
          bindE (formatDate orc (Some (NepaliSel newNepaliDate)) Np format) (\<lambda>n.
            Inr (p\<lparr>selectedDate :=
                      Some (if language = Np then NepaliSel newNepaliDate
                            else DateSel newGregorianDate),
                    isOpen := False\<rparr>,
                 \<lparr>english = e, nepali_text = n\<rparr>))))"

definition currentDay :: "picker \<Rightarrow> int" where
  "currentDay p = (case selectedDate p of None \<Rightarrow> 1 | Some s \<Rightarrow> getDate s)"

definition handleMonthChange ::
  "calendar_oracle \<Rightarrow> language \<Rightarrow> picker \<Rightarrow> int \<Rightarrow> error + picker" where
  "handleMonthChange orc language p increment =
     (let month0 = bsMonth (nepali p) + increment;
          newNepaliYear =
            (if month0 > 11 then bsYear (nepali p) + month0 div 12
             else if month0 < 0 then bsYear (nepali p) + month0 div 12
             else bsYear (nepali p));
          newNepaliMonth =
            (if month0 > 11 then js_rem month0 12
             else if month0 < 0 then js_rem (js_rem month0 12 + 12) 12
             else month0)
      in bindE (NepaliDate_ymd orc newNepaliYear (newNepaliMonth + 1) 0) (\<lambda>lastOfMonth.
         let maxNepaliDay = bsDate lastOfMonth;
             newGregorianDate =
               js_Date (adYear (gregorian p)) (adMonth (gregorian p) + increment) 1;
             maxGregorianDay =
               adDate (js_Date (adYear newGregorianDate) (adMonth newGregorianDate + 1) 0);
             adjustedNepaliDay = min (currentDay p) maxNepaliDay;
             adjustedGregorianDay = min (currentDay p) maxGregorianDay
         in bindE (NepaliDate_ymd orc newNepaliYear newNepaliMonth adjustedNepaliDay)
              (\<lambda>updatedNepaliDate.
                 let updatedGregorianDate =
                       js_Date (adYear newGregorianDate) (adMonth newGregorianDate)
                         adjustedGregorianDay
                 in Inr (p\<lparr>selectedDate :=
                              Some (if language = Np then NepaliSel updatedNepaliDate
                                    else DateSel updatedGregorianDate),
                            nepali := updatedNepaliDate,
                            gregorian := updatedGregorianDate\<rparr>))))"

text \<open>A run of month changes stops at the first one that throws.\<close>

fun advances :: "calendar_oracle \<Rightarrow> language \<Rightarrow> picker \<Rightarrow> int list \<Rightarrow> error + picker" where
  "advances orc language p [] = Inr p"
| "advances orc language p (i # is) =
     bindE (handleMonthChange orc language p i) (\<lambda>p'. advances orc language p' is)"

definition inputValue ::
  "calendar_oracle \<Rightarrow> language \<Rightarrow> DateFormat \<Rightarrow> picker \<Rightarrow> error + jsstring" where
  "inputValue orc language format p =
     (case selectedDate p of
        None \<Rightarrow> Inr []
      | Some s \<Rightarrow> formatDate orc (Some s) language format)"

section \<open>Range labels of the header\<close>

definition getGregorianMonthRange :: "calendar_oracle \<Rightarrow> nepali_date \<Rightarrow> error + jsstring" where
  "getGregorianMonthRange orc nepaliMonth =
     bindE (NepaliDate_ymd orc (bsYear nepaliMonth) (bsMonth nepaliMonth) 1) (\<lambda>firstDay.
     bindE (NepaliDate_ymd orc (bsYear nepaliMonth) (bsMonth nepaliMonth + 1) 0) (\<lambda>lastDay.
       Inr (if shortMonth (toJsDate firstDay) = shortMonth (toJsDate lastDay)
            then shortMonth (toJsDate firstDay)
            else shortMonth (toJsDate firstDay) @ asc ''/'' @ shortMonth (toJsDate lastDay))))"

definition getGregorianYearRange :: "calendar_oracle \<Rightarrow> nepali_date \<Rightarrow> error + jsstring" where
  "getGregorianYearRange orc nepaliMonth =
     bindE (NepaliDate_ymd orc (bsYear nepaliMonth) (bsMonth nepaliMonth) 1) (\<lambda>firstDay.
     bindE (NepaliDate_ymd orc (bsYear nepaliMonth) (bsMonth nepaliMonth + 1) 0) (\<lambda>lastDay.
       Inr (if adYear (toJsDate firstDay) = adYear (toJsDate lastDay)
            then js_toString (adYear (toJsDate firstDay))
            else js_toString (adYear (toJsDate firstDay)) @ asc ''-''
                   @ js_toString (adYear (toJsDate lastDay)))))"

definition getNepaliMonthRange :: "calendar_oracle \<Rightarrow> nepali_date \<Rightarrow> error + jsstring" where
  "getNepaliMonthRange orc date =
     bindE (NepaliDate_ymd orc (bsYear date) (bsMonth date) 1) (\<lambda>firstDay.
     bindE (NepaliDate_ymd orc (bsYear date) (bsMonth date + 2) 0) (\<lambda>lastDay.
       Inr (if bsMonth firstDay = bsMonth lastDay
            then js_show (js_index MONTH_NAMES_np (bsMonth firstDay))
            else js_show (js_index MONTH_NAMES_np (bsMonth firstDay)) @ asc ''/''
                   @ js_show (js_index MONTH_NAMES_np (bsMonth lastDay)))))"

definition getNepaliYearRange :: "calendar_oracle \<Rightarrow> nepali_date \<Rightarrow> error + jsstring" where
  "getNepaliYearRange orc date =
     bindE (NepaliDate_ymd orc (bsYear date) (bsMonth date) 1) (\<lambda>firstDay.
     bindE (NepaliDate_ymd orc (bsYear date) (bsMonth date + 2) 0) (\<lambda>lastDay.
       Inr (if bsYear firstDay = bsYear lastDay
            then toNepaliNumeral (bsYear firstDay)
            else toNepaliNumeral (bsYear firstDay) @ asc ''-''
                   @ toNepaliNumeral (bsYear lastDay))))"

text \<open>The month line under the header: the Gregorian range of the Nepali month when the
  language is \<open>np\<close>, the Nepali range otherwise; both are computed from
  \<open>currentMonth.nepali\<close>.\<close>

definition secondaryMonthRange :: "calendar_oracle \<Rightarrow> language \<Rightarrow> picker \<Rightarrow> error + jsstring" where
  "secondaryMonthRange orc language p =
     (if language = Np then getGregorianMonthRange orc (nepali p)
      else getNepaliMonthRange orc (nepali p))"


section \<open>The specification's notions\<close>

text \<open>
  A \<open>NepaliDate\<close> satisfies the DualDate invariant when its Bikram Sambat fields and its
  \<open>Date\<close> are related by one of the oracle's conversions.
\<close>

definition sameDay :: "calendar_oracle \<Rightarrow> nepali_date \<Rightarrow> bool" where
  "sameDay orc n =
     (toJsDate n = bsToAd orc (bsYear n) (bsMonth n) (bsDate n)
      \<or> adToBs orc (toJsDate n) = Some (bsYear n, bsMonth n, bsDate n))"

text \<open>The same for the two month anchors of a picker.\<close>

definition dualAnchor :: "calendar_oracle \<Rightarrow> picker \<Rightarrow> bool" where
  "dualAnchor orc p =
     (gregorian p = bsToAd orc (bsYear (nepali p)) (bsMonth (nepali p)) (bsDate (nepali p))
      \<or> adToBs orc (gregorian p) = Some (bsYear (nepali p), bsMonth (nepali p), bsDate (nepali p)))"

text \<open>
  The range label as the specification words it: convert the first and the last day of the
  anchor month into the other calendar, and print one name when the two agree, else both.
\<close>

definition spec_range :: "jsstring \<Rightarrow> jsstring \<Rightarrow> jsstring \<Rightarrow> jsstring" where
  "spec_range sep a b = (if a = b then a else a @ sep @ b)"

definition spec_gregorianMonthRange :: "calendar_oracle \<Rightarrow> int \<Rightarrow> int \<Rightarrow> jsstring" where
  "spec_gregorianMonthRange orc y m =
     spec_range (asc ''/'') (shortMonth (bsToAd orc y m 1))
       (shortMonth (bsToAd orc y m (daysInBsMonth orc y m)))"

definition spec_gregorianYearRange :: "calendar_oracle \<Rightarrow> int \<Rightarrow> int \<Rightarrow> jsstring" where
  "spec_gregorianYearRange orc y m =
     (let first = adYear (bsToAd orc y m 1);
          last = adYear (bsToAd orc y m (daysInBsMonth orc y m))
      in if first = last then js_toString first
         else js_toString first @ asc ''-'' @ js_toString last)"

definition spec_nepaliMonthRange :: "calendar_oracle \<Rightarrow> int \<Rightarrow> int \<Rightarrow> jsstring option" where
  "spec_nepaliMonthRange orc y m =
     (case (adToBs orc \<lparr>adYear = y, adMonth = m, adDate = 1\<rparr>,
            adToBs orc \<lparr>adYear = y, adMonth = m, adDate = daysInAdMonth y m\<rparr>) of
        (Some (y1, m1, d1), Some (y2, m2, d2)) \<Rightarrow>
          Some (spec_range (asc ''/'') (js_show (js_index MONTH_NAMES_np m1))
                  (js_show (js_index MONTH_NAMES_np m2)))
      | _ \<Rightarrow> None)"

text \<open>The Gregorian anchor keeps clear of the years 0 to 99 along a run of month changes
  that starts at the month index \<open>i\<close> (twelve times the year plus the month).\<close>

fun fourDigitRun :: "int \<Rightarrow> int list \<Rightarrow> bool" where
  "fourDigitRun i [] = True"
| "fourDigitRun i (d # ds) =
     (\<not> twoDigitYear (i div 12) \<and> \<not> twoDigitYear ((i + d) div 12) \<and> fourDigitRun (i + d) ds)"

section \<open>The state after a month change, in closed form\<close>

text \<open>
  The picker that a month change by \<open>i\<close> leads to when both constructors accept their
  arguments: both anchors moved by \<open>i\<close> months and the day clamped in each calendar.  It is
  used to state what \<open>handleMonthChange\<close> computes.
\<close>

definition stepped :: "calendar_oracle \<Rightarrow> language \<Rightarrow> picker \<Rightarrow> int \<Rightarrow> picker" where
  "stepped orc lang p i =
     (let Y = bsYear (nepali p) + (bsMonth (nepali p) + i) div 12;
          M = (bsMonth (nepali p) + i) mod 12;
          YA = adYear (gregorian p) + (adMonth (gregorian p) + i) div 12;
          MA = (adMonth (gregorian p) + i) mod 12;
          n = \<lparr>bsYear = Y, bsMonth = M,
                         bsDate = min (currentDay p) (daysInBsMonth orc Y M),
                         toJsDate = bsToAd orc Y M (min (currentDay p) (daysInBsMonth orc Y M))\<rparr>;
                  g = \<lparr>adYear = YA, adMonth = MA,
                         adDate = min (currentDay p) (daysInAdMonth YA MA)\<rparr>
              in p\<lparr>selectedDate := Some (if lang = Np then NepaliSel n else DateSel g),
                        nepali := n, gregorian := g\<rparr>)"

section \<open>A sample oracle\<close>

text \<open>
  A small oracle to run the definitions on: month lengths for the Bikram Sambat years 2081
  and 2082, with 1 Baishakh 2081 on 13 April 2024 (so that 17 Poush 2081 is 1 January 2025,
  the two default values of the page), parsers for \<open>YYYY-MM-DD\<close>, and 31 January 2025 as
  the current day.  Every other year is outside its era.
\<close>

definition sample_months :: "int \<Rightarrow> int list" where
  "sample_months y =
     (if y = 2081 then [31, 31, 32, 32, 31, 30, 30, 30, 29, 30, 30, 30]
      else if y = 2082 then [30, 32, 31, 32, 31, 30, 30, 30, 29, 30, 30, 30]
      else [])"

definition sample_days :: "int \<Rightarrow> int \<Rightarrow> int" where
  "sample_days y m = (case js_index (sample_months y) m of None \<Rightarrow> 0 | Some n \<Rightarrow> n)"

definition sample_bsToAd :: "int \<Rightarrow> int \<Rightarrow> int \<Rightarrow> js_date" where
  "sample_bsToAd y m d =
     js_Date 2024 3
       (13 + (if y = 2082 then 366 else 0) + sum_list (take (nat m) (sample_months y)) + d - 1)"

definition dayNumber :: "js_date \<Rightarrow> int" where
  "dayNumber g =
     (let y = (if adMonth g < 2 then adYear g - 1 else adYear g);
          mp = (adMonth g + 10) mod 12
      in 365 * y + y div 4 - y div 100 + y div 400 + (153 * mp + 2) div 5 + adDate g)"

definition sample_adToBs :: "js_date \<Rightarrow> (int \<times> int \<times> int) option" where
  "sample_adToBs g =
     (let n = dayNumber g - dayNumber \<lparr>adYear = 2024, adMonth = 3, adDate = 13\<rparr>
      in if 0 \<le> n \<and> n < 731
         then (case bs_forward sample_days 2081 0 (n + 1) of Inl e \<Rightarrow> None | Inr t \<Rightarrow> Some t)
         else None)"

fun digits_value :: "string \<Rightarrow> nat \<Rightarrow> nat option" where
  "digits_value [] acc = Some acc"
| "digits_value (c # cs) acc =
     (if 48 \<le> (of_char c :: nat) \<and> (of_char c :: nat) \<le> 57
      then digits_value cs (10 * acc + (of_char c - 48))
      else None)"

definition sample_parse :: "string \<Rightarrow> (int \<times> int \<times> int) option" where
  "sample_parse s =
     (if length s = 10 \<and> s ! 4 = CHR ''-'' \<and> s ! 7 = CHR ''-''
      then (case (digits_value (take 4 s) 0, digits_value (take 2 (drop 5 s)) 0,
                  digits_value (drop 8 s) 0) of
              (Some y, Some m, Some d) \<Rightarrow> Some (int y, int m - 1, int d)
            | _ \<Rightarrow> None)
      else None)"

definition sample_parseAd :: "string \<Rightarrow> js_date option" where
  "sample_parseAd s =
     (case sample_parse s of
        None \<Rightarrow> None
      | Some (y, m, d) \<Rightarrow>
          if 0 \<le> m \<and> m \<le> 11 \<and> 1 \<le> d \<and> d \<le> daysInAdMonth y m
          then Some \<lparr>adYear = y, adMonth = m, adDate = d\<rparr> else None)"

definition sample_oracle :: calendar_oracle where
  "sample_oracle =
     \<lparr>daysInBsMonth = sample_days, bsToAd = sample_bsToAd, adToBs = sample_adToBs,
      parseBs = sample_parse, parseAd = sample_parseAd,
      today = \<lparr>adYear = 2025, adMonth = 0, adDate = 31\<rparr>\<rparr>"

text \<open>
  Pickers of the sample oracle: the one the page builds from \<open>2081-09-17\<close> in \<open>np\<close>,
  the one built without a default value on 31 January 2025, and the first one after a month
  forward and a click on day 30.
\<close>

definition poush17 :: nepali_date where
  "poush17 = \<lparr>bsYear = 2081, bsMonth = 8, bsDate = 17,
               toJsDate = \<lparr>adYear = 2025, adMonth = 0, adDate = 1\<rparr>\<rparr>"

definition page_picker_np :: picker where
  "page_picker_np = \<lparr>selectedDate = Some (NepaliSel poush17), nepali = poush17,
       gregorian = \<lparr>adYear = 2025, adMonth = 0, adDate = 1\<rparr>, isOpen = False\<rparr>"

definition today_picker :: picker where
  "today_picker =
     \<lparr>selectedDate = None,
      nepali = \<lparr>bsYear = 2081, bsMonth = 9, bsDate = 18,
                toJsDate = \<lparr>adYear = 2025, adMonth = 0, adDate = 31\<rparr>\<rparr>,
      gregorian = \<lparr>adYear = 2025, adMonth = 0, adDate = 31\<rparr>, isOpen = False\<rparr>"

definition magh_picker :: picker where
  "magh_picker =
     \<lparr>selectedDate = Some (NepaliSel \<lparr>bsYear = 2081, bsMonth = 9, bsDate = 30,
                 toJsDate = \<lparr>adYear = 2025, adMonth = 1, adDate = 12\<rparr>\<rparr>),
      nepali = \<lparr>bsYear = 2081, bsMonth = 9, bsDate = 17,
                 toJsDate = \<lparr>adYear = 2025, adMonth = 0, adDate = 30\<rparr>\<rparr>,
      gregorian = \<lparr>adYear = 2025, adMonth = 1, adDate = 17\<rparr>, isOpen = False\<rparr>"



definition falgun82_picker :: picker where
  "falgun82_picker =
     \<lparr>selectedDate = Some (NepaliSel \<lparr>bsYear = 2082, bsMonth = 10, bsDate = 17,
                 toJsDate = \<lparr>adYear = 2026, adMonth = 2, adDate = 1\<rparr>\<rparr>),
      nepali = \<lparr>bsYear = 2082, bsMonth = 10, bsDate = 17,
                 toJsDate = \<lparr>adYear = 2026, adMonth = 2, adDate = 1\<rparr>\<rparr>,
      gregorian = \<lparr>adYear = 2026, adMonth = 2, adDate = 17\<rparr>, isOpen = False\<rparr>"

section \<open>Arithmetic of the remainder operator\<close>

lemma js_rem_nonneg: "0 \<le> a \<Longrightarrow> 0 < b \<Longrightarrow> js_rem a b = a mod b"
  by (cases "a = 0") (simp_all add: js_rem_def)

lemma js_rem_neg: "a < 0 \<Longrightarrow> 0 < b \<Longrightarrow> js_rem a b = - ((- a) mod b)"
  by (simp add: js_rem_def)

text \<open>The two branches of the month normalisation agree with floor division and its
  remainder.\<close>

lemma month_normal:
  "(if m > 11 then js_rem m 12 else if m < 0 then js_rem (js_rem m 12 + 12) 12 else m) = m mod 12"
  "(if m > 11 then y + m div 12 else if m < 0 then y + m div 12 else y) = y + m div 12"
proof -
  show "(if m > 11 then js_rem m 12 else if m < 0 then js_rem (js_rem m 12 + 12) 12 else m) = m mod 12"
  proof (cases "m < 0")
    case True
    have a: "js_rem m 12 = - ((- m) mod 12)" using True by (simp add: js_rem_neg)
    have b: "0 \<le> (- m) mod 12" "(- m) mod 12 < 12" by simp_all
    have "0 \<le> js_rem m 12 + 12" using a b by linarith
    then have "js_rem (js_rem m 12 + 12) 12 = (js_rem m 12 + 12) mod 12" by (simp add: js_rem_nonneg)
    also have "\<dots> = (- ((- m) mod 12)) mod 12" unfolding a by simp
    also have "\<dots> = m mod 12" by (simp add: mod_minus_eq)
    finally show ?thesis using True by simp
  next
    case False
    then show ?thesis by (simp add: js_rem_nonneg)
  qed
  show "(if m > 11 then y + m div 12 else if m < 0 then y + m div 12 else y) = y + m div 12"
    by simp
qed

lemma js_rem_twice: "js_rem (js_rem m 12 + 12) 12 = m mod 12"
proof (cases "m < 0")
  case True
  then show ?thesis using month_normal(1) [of m] by simp
next
  case False
  then have "js_rem m 12 = m mod 12" by (simp add: js_rem_nonneg)
  moreover have "0 \<le> m mod 12 + 12" by simp
  ultimately show ?thesis by (simp add: js_rem_nonneg)
qed

section \<open>The ordinal suffix\<close>

lemma suffixes_index:
  "js_index suffixes 0 = Some (asc ''th'')" "js_index suffixes 1 = Some (asc ''st'')"
  "js_index suffixes 2 = Some (asc ''nd'')" "js_index suffixes 3 = Some (asc ''rd'')"
  "i < 0 \<Longrightarrow> js_index suffixes i = None" "4 \<le> i \<Longrightarrow> js_index suffixes i = None"
  by (simp_all add: js_index_def suffixes_def)

lemma asc_nonempty:
  "asc ''th'' \<noteq> []" "asc ''st'' \<noteq> []" "asc ''nd'' \<noteq> []" "asc ''rd'' \<noteq> []"
  by (simp_all add: asc_def)

text \<open>Below 20 the first lookup is out of range (or hits index 0), and the day itself
  indexes the table.\<close>

lemma suffix_low:
  assumes a: "0 \<le> v" "v < 20"
  shows "js_show (js_or (js_or (js_index suffixes (js_rem (v - 20) 10)) (js_index suffixes v))
                   (js_index suffixes 0))
         = (if v = 1 then asc ''st'' else if v = 2 then asc ''nd''
            else if v = 3 then asc ''rd'' else asc ''th'')"
proof -
  have r: "js_rem (v - 20) 10 = - ((20 - v) mod 10)"
    using a by (simp add: js_rem_neg)
  have "0 \<le> (20 - v) mod 10" by simp
  then have "(20 - v) mod 10 = 0 \<or> 0 < (20 - v) mod 10" by linarith
  then show ?thesis
  proof
    assume z: "(20 - v) mod 10 = 0"
    then have "v = 0 \<or> v = 10" using a by presburger
    then show ?thesis unfolding r z
      by (auto simp: suffixes_index asc_nonempty js_or_def js_show_def)
  next
    assume "0 < (20 - v) mod 10"
    then have n: "js_index suffixes (js_rem (v - 20) 10) = None"
      using r by (simp add: suffixes_index)
    consider "v = 0" | "v = 1" | "v = 2" | "v = 3" | "4 \<le> v" using a by linarith
    then show ?thesis unfolding n
      by cases (simp_all add: suffixes_index asc_nonempty js_or_def js_show_def)
  qed
qed

text \<open>From 20 on the first lookup decides by the last digit.\<close>

lemma suffix_high:
  assumes a: "20 \<le> v"
  shows "js_show (js_or (js_or (js_index suffixes (js_rem (v - 20) 10)) (js_index suffixes v))
                   (js_index suffixes 0))
         = (if v mod 10 = 1 then asc ''st'' else if v mod 10 = 2 then asc ''nd''
            else if v mod 10 = 3 then asc ''rd'' else asc ''th'')"
proof -
  have "js_rem (v - 20) 10 = (v - 20) mod 10" using a by (simp add: js_rem_nonneg)
  also have "\<dots> = v mod 10" by presburger
  finally have r: "js_rem (v - 20) 10 = v mod 10" .
  have b: "0 \<le> v mod 10" "v mod 10 < 10" by simp_all
  have n: "js_index suffixes v = None" using a by (simp add: suffixes_index)
  consider "v mod 10 = 0" | "v mod 10 = 1" | "v mod 10 = 2" | "v mod 10 = 3" | "4 \<le> v mod 10"
    using b by linarith
  then show ?thesis unfolding r n
    by cases (simp_all add: suffixes_index asc_nonempty js_or_def js_show_def)
qed

lemma suffix_by_rule:
  assumes d: "1 \<le> d"
  shows "getOrdinalSuffix d =
    (if d mod 100 \<in> {11, 12, 13} then asc ''th''
     else if d mod 10 = 1 then asc ''st''
     else if d mod 10 = 2 then asc ''nd''
     else if d mod 10 = 3 then asc ''rd'' else asc ''th'')"
proof -
  define v where "v = d mod 100"
  have v: "js_rem d 100 = v" "0 \<le> v" "v < 100"
    using d by (simp_all add: v_def js_rem_nonneg)
  have g: "getOrdinalSuffix d =
      js_show (js_or (js_or (js_index suffixes (js_rem (v - 20) 10)) (js_index suffixes v))
                 (js_index suffixes 0))"
    by (simp add: getOrdinalSuffix_def v(1))
  have "d mod 10 = d mod 100 mod 10" by (simp add: mod_mod_cancel)
  then have m: "d mod 10 = v mod 10" by (simp add: v_def)
  define P where "P = js_show (js_or (js_or (js_index suffixes (js_rem (v - 20) 10))
                 (js_index suffixes v)) (js_index suffixes 0))"
  have goal: "P =
    (if v \<in> {11, 12, 13} then asc ''th''
     else if v mod 10 = 1 then asc ''st''
     else if v mod 10 = 2 then asc ''nd''
     else if v mod 10 = 3 then asc ''rd'' else asc ''th'')"
  proof (cases "v < 20")
    case True
    have low: "P = (if v = 1 then asc ''st'' else if v = 2 then asc ''nd''
            else if v = 3 then asc ''rd'' else asc ''th'')"
      unfolding P_def by (rule suffix_low [OF v(2) True])
    consider "v = 1" | "v = 2" | "v = 3" | "v = 11" | "v = 12" | "v = 13"
      | "v = 0" | "4 \<le> v \<and> v \<le> 10" | "14 \<le> v"
      using v(2) by linarith
    then show ?thesis
    proof cases
      case 8
      then have "v mod 10 \<noteq> 1" "v mod 10 \<noteq> 2" "v mod 10 \<noteq> 3" by presburger+
      then show ?thesis using 8 low by simp
    next
      case 9
      then have "v mod 10 \<noteq> 1" "v mod 10 \<noteq> 2" "v mod 10 \<noteq> 3" using True by presburger+
      then show ?thesis using 9 low by simp
    qed (simp_all add: low)
  next
    case False
    then have h: "20 \<le> v" by simp
    then have "v \<noteq> 11" "v \<noteq> 12" "v \<noteq> 13" by simp_all
    then show ?thesis unfolding P_def using suffix_high [OF h] by simp
  qed
  show ?thesis unfolding g m using goal by (simp add: v_def P_def)
qed

text \<open>
  C9.  For a day number \<open>d \<ge> 1\<close>, \<open>getOrdinalSuffix\<close> returns \<open>th\<close> when \<open>d % 100\<close> is
  11, 12 or 13; otherwise \<open>st\<close>, \<open>nd\<close>, \<open>rd\<close> when \<open>d % 10\<close> is 1, 2, 3, and \<open>th\<close> in
  every other case; the result is always one of the four suffixes.
\<close>

theorem ordinal_suffix_rule:
  assumes "1 \<le> d"
  shows "getOrdinalSuffix d =
           (if js_rem d 100 \<in> {11, 12, 13} then asc ''th''
            else if js_rem d 10 = 1 then asc ''st''
            else if js_rem d 10 = 2 then asc ''nd''
            else if js_rem d 10 = 3 then asc ''rd'' else asc ''th'')
         \<and> getOrdinalSuffix d \<in> {asc ''th'', asc ''st'', asc ''nd'', asc ''rd''}"
proof -
  have r: "js_rem d 100 = d mod 100" "js_rem d 10 = d mod 10"
    using assms by (simp_all add: js_rem_nonneg)
  show ?thesis unfolding r using suffix_by_rule [OF assms] by simp
qed

theorem ordinal_suffix_rule_witness:
  "(1::int) \<le> 22 \<and> getOrdinalSuffix 22 = asc ''nd''
   \<and> getOrdinalSuffix 22 \<in> {asc ''th'', asc ''st'', asc ''nd'', asc ''rd''}"
  using ordinal_suffix_rule [of 22] by (simp add: js_rem_def)

section \<open>Formatting no date\<close>

text \<open>
  C10.  For every language and every template, formatting \<open>null\<close> gives the empty string
  and does not fail, so a picker with no selected date shows an empty input value.
\<close>

theorem format_null_empty:
  "formatDate orc None lang format = Inr []
   \<and> (selectedDate p = None \<longrightarrow> inputValue orc lang format p = Inr [])"
  by (simp add: formatDate_def inputValue_def)

theorem format_null_empty_witness:
  "selectedDate today_picker = None
   \<and> formatDate sample_oracle None En DDth_MMMM_YYYY = Inr []
   \<and> inputValue sample_oracle En DDth_MMMM_YYYY today_picker = Inr []"
  using format_null_empty [of sample_oracle En DDth_MMMM_YYYY today_picker]
  by (simp add: today_picker_def)

section \<open>The date constructors\<close>

text \<open>
  A day inside its month is kept as it is; day 0 of the following month is the last day of
  the month; the day after the last one is the first day of the following month.
\<close>

lemma daysInAdMonth_pos: "28 \<le> daysInAdMonth y m"
  by (simp add: daysInAdMonth_def)

lemma js_Date_plain:
  assumes "\<not> twoDigitYear y" "1 \<le> d" "d \<le> daysInAdMonth (y + m div 12) (m mod 12)"
  shows "js_Date y m d = \<lparr>adYear = y + m div 12, adMonth = m mod 12, adDate = d\<rparr>"
  using assms by (simp add: js_Date_def js_forward.simps)

lemma js_Date_in_month:
  assumes "\<not> twoDigitYear y" "0 \<le> m" "m \<le> 11" "1 \<le> d" "d \<le> daysInAdMonth y m"
  shows "js_Date y m d = \<lparr>adYear = y, adMonth = m, adDate = d\<rparr>"
  using assms by (simp add: js_Date_plain)

lemma js_Date_last:
  assumes "\<not> twoDigitYear y" "0 \<le> m" "m \<le> 11"
  shows "js_Date y (m + 1) 0 = \<lparr>adYear = y, adMonth = m, adDate = daysInAdMonth y m\<rparr>"
proof (cases "m = 11")
  case True
  have "1 \<le> daysInAdMonth y 11" using daysInAdMonth_pos [of y 11] by linarith
  then show ?thesis using assms True
    by (simp add: js_Date_def js_backward.simps [of "y + 1" 0] js_backward.simps [of y 11])
next
  case False
  then have m: "(m + 1) div 12 = 0" "(m + 1) mod 12 = m + 1" using assms by simp_all
  have "1 \<le> daysInAdMonth y m" using daysInAdMonth_pos [of y m] by linarith
  then show ?thesis using assms False
    by (simp add: js_Date_def m js_backward.simps [of y "m + 1"] js_backward.simps [of y m])
qed


lemma NepaliDate_ymd_plain:
  assumes "1 \<le> d" "d \<le> daysInBsMonth orc (y + m div 12) (m mod 12)"
  shows "NepaliDate_ymd orc y m d =
           Inr \<lparr>bsYear = y + m div 12, bsMonth = m mod 12, bsDate = d,
                toJsDate = bsToAd orc (y + m div 12) (m mod 12) d\<rparr>"
  using assms by (simp add: NepaliDate_ymd_def Let_def bs_forward.simps bindE_def)

lemma NepaliDate_ymd_in_month:
  assumes "0 \<le> m" "m \<le> 11" "1 \<le> d" "d \<le> daysInBsMonth orc y m"
  shows "NepaliDate_ymd orc y m d =
           Inr \<lparr>bsYear = y, bsMonth = m, bsDate = d, toJsDate = bsToAd orc y m d\<rparr>"
  using assms by (simp add: NepaliDate_ymd_plain)

lemma NepaliDate_ymd_last:
  assumes "0 \<le> m" "m \<le> 11"
  shows "NepaliDate_ymd orc y (m + 1) 0 =
           (if daysInBsMonth orc (y + (m + 1) div 12) ((m + 1) mod 12) \<le> 0
               \<or> daysInBsMonth orc y m \<le> 0
            then Inl UnsupportedEra
            else Inr \<lparr>bsYear = y, bsMonth = m, bsDate = daysInBsMonth orc y m,
                      toJsDate = bsToAd orc y m (daysInBsMonth orc y m)\<rparr>)"
proof (cases "m = 11")
  case True
  then show ?thesis
    by (simp add: NepaliDate_ymd_def Let_def bindE_def bs_backward.simps [of _ "y + 1" 0]
        bs_backward.simps [of _ y 11])
next
  case False
  then have m: "(m + 1) div 12 = 0" "(m + 1) mod 12 = m + 1" using assms by simp_all
  show ?thesis using assms False
    by (simp add: NepaliDate_ymd_def Let_def bindE_def m bs_backward.simps [of _ y "m + 1"]
        bs_backward.simps [of _ y m])
qed


lemma NepaliDate_ymd_carry:
  "NepaliDate_ymd orc y (m + 1) 0 = NepaliDate_ymd orc (y + m div 12) (m mod 12 + 1) 0"
proof -
  have a: "y + (m + 1) div 12 = y + m div 12 + (m mod 12 + 1) div 12"
    using div_add1_eq [of m 1 12] by simp
  have b: "(m + 1) mod 12 = (m mod 12 + 1) mod 12"
    using mod_add_left_eq [of m 12 1] by simp
  show ?thesis unfolding NepaliDate_ymd_def Let_def a b ..
qed

lemma NepaliDate_ymd_after_next:
  assumes "0 \<le> m" "m \<le> 11"
    "0 < daysInBsMonth orc (y + (m + 1) div 12) ((m + 1) mod 12)"
    "0 < daysInBsMonth orc (y + (m + 2) div 12) ((m + 2) mod 12)"
  shows "NepaliDate_ymd orc y (m + 2) 0 =
     Inr \<lparr>bsYear = y + (m + 1) div 12, bsMonth = (m + 1) mod 12,
          bsDate = daysInBsMonth orc (y + (m + 1) div 12) ((m + 1) mod 12),
          toJsDate = bsToAd orc (y + (m + 1) div 12) ((m + 1) mod 12)
                       (daysInBsMonth orc (y + (m + 1) div 12) ((m + 1) mod 12))\<rparr>"
proof -
  let ?Y = "y + (m + 1) div 12" and ?M = "(m + 1) mod 12"
  have M: "0 \<le> ?M" "?M \<le> 11" by simp_all
  have "NepaliDate_ymd orc y (m + 2) 0 = NepaliDate_ymd orc y ((m + 1) + 1) 0"
    by (simp add: add.assoc)
  also have "\<dots> = NepaliDate_ymd orc ?Y (?M + 1) 0"
    by (rule NepaliDate_ymd_carry)
  finally have c: "NepaliDate_ymd orc y (m + 2) 0 = NepaliDate_ymd orc ?Y (?M + 1) 0" .
  have d: "?Y + (?M + 1) div 12 = y + (m + 2) div 12"
    using div_add1_eq [of "m + 1" 1 12] by (simp add: add.assoc)
  have e: "(?M + 1) mod 12 = (m + 2) mod 12"
    using mod_add_left_eq [of "m + 1" 12 1] by (simp add: add.assoc)
  show ?thesis
    unfolding c NepaliDate_ymd_last [OF M] d e using assms(3,4) by simp
qed




lemma NepaliDate_ymd_sameDay:
  "NepaliDate_ymd orc y m d = Inr n \<Longrightarrow> toJsDate n = bsToAd orc (bsYear n) (bsMonth n) (bsDate n)"
  by (auto simp: NepaliDate_ymd_def Let_def bindE_def split: if_splits sum.splits prod.splits)

lemma NepaliDate_of_Date_sameDay:
  "NepaliDate_of_Date orc g = Inr n \<Longrightarrow>
     toJsDate n = g \<and> adToBs orc g = Some (bsYear n, bsMonth n, bsDate n)"
  by (auto simp: NepaliDate_of_Date_def split: option.splits)

section \<open>Changing the month\<close>

lemma handleMonthChange_eq:
  assumes cd: "1 \<le> currentDay p"
    and py: "\<not> twoDigitYear (adYear (gregorian p))"
            "\<not> twoDigitYear (adYear (gregorian p) + (adMonth (gregorian p) + i) div 12)"
  shows "handleMonthChange orc lang p i =
     (let Y = bsYear (nepali p) + (bsMonth (nepali p) + i) div 12;
          M = (bsMonth (nepali p) + i) mod 12;
          YA = adYear (gregorian p) + (adMonth (gregorian p) + i) div 12;
          MA = (adMonth (gregorian p) + i) mod 12
      in if daysInBsMonth orc (Y + (M + 1) div 12) ((M + 1) mod 12) \<le> 0
            \<or> daysInBsMonth orc Y M \<le> 0
         then Inl UnsupportedEra
         else let n = \<lparr>bsYear = Y, bsMonth = M,
                         bsDate = min (currentDay p) (daysInBsMonth orc Y M),
                         toJsDate = bsToAd orc Y M (min (currentDay p) (daysInBsMonth orc Y M))\<rparr>;
                  g = \<lparr>adYear = YA, adMonth = MA,
                         adDate = min (currentDay p) (daysInAdMonth YA MA)\<rparr>
              in Inr (p\<lparr>selectedDate := Some (if lang = Np then NepaliSel n else DateSel g),
                        nepali := n, gregorian := g\<rparr>))"
proof -
  define Y where "Y = bsYear (nepali p) + (bsMonth (nepali p) + i) div 12"
  define M where "M = (bsMonth (nepali p) + i) mod 12"
  define YA where "YA = adYear (gregorian p) + (adMonth (gregorian p) + i) div 12"
  define MA where "MA = (adMonth (gregorian p) + i) mod 12"
  have M: "0 \<le> M" "M \<le> 11" and MA: "0 \<le> MA" "MA \<le> 11"
    by (simp_all add: M_def MA_def) 
  have g1: "js_Date (adYear (gregorian p)) (adMonth (gregorian p) + i) 1
              = \<lparr>adYear = YA, adMonth = MA, adDate = 1\<rparr>"
    using py(1) daysInAdMonth_pos [of YA MA] unfolding YA_def MA_def
    by (intro js_Date_plain) simp_all
  have g2: "js_Date YA (MA + 1) 0 = \<lparr>adYear = YA, adMonth = MA, adDate = daysInAdMonth YA MA\<rparr>"
    using py(2) MA unfolding YA_def [symmetric] by (rule js_Date_last)
  have cg: "1 \<le> min (currentDay p) (daysInAdMonth YA MA)"
    using cd daysInAdMonth_pos [of YA MA] by simp
  have g3: "js_Date YA MA (min (currentDay p) (daysInAdMonth YA MA))
              = \<lparr>adYear = YA, adMonth = MA, adDate = min (currentDay p) (daysInAdMonth YA MA)\<rparr>"
    using py(2) MA cg unfolding YA_def [symmetric] by (intro js_Date_in_month) simp_all
  have n1: "NepaliDate_ymd orc Y (M + 1) 0 =
           (if daysInBsMonth orc (Y + (M + 1) div 12) ((M + 1) mod 12) \<le> 0
               \<or> daysInBsMonth orc Y M \<le> 0
            then Inl UnsupportedEra
            else Inr \<lparr>bsYear = Y, bsMonth = M, bsDate = daysInBsMonth orc Y M,
                      toJsDate = bsToAd orc Y M (daysInBsMonth orc Y M)\<rparr>)"
    using M by (rule NepaliDate_ymd_last)
  have n2: "0 < daysInBsMonth orc Y M \<Longrightarrow>
      NepaliDate_ymd orc Y M (min (currentDay p) (daysInBsMonth orc Y M)) =
        Inr \<lparr>bsYear = Y, bsMonth = M, bsDate = min (currentDay p) (daysInBsMonth orc Y M),
             toJsDate = bsToAd orc Y M (min (currentDay p) (daysInBsMonth orc Y M))\<rparr>"
    using M cd by (intro NepaliDate_ymd_in_month) simp_all
  have h: "handleMonthChange orc lang p i =
      bindE (NepaliDate_ymd orc Y (M + 1) 0) (\<lambda>lastOfMonth.
        bindE (NepaliDate_ymd orc Y M (min (currentDay p) (bsDate lastOfMonth)))
          (\<lambda>updatedNepaliDate.
             let updatedGregorianDate = js_Date YA MA (min (currentDay p) (daysInAdMonth YA MA))
             in Inr (p\<lparr>selectedDate :=
                          Some (if lang = Np then NepaliSel updatedNepaliDate
                                else DateSel updatedGregorianDate),
                        nepali := updatedNepaliDate,
                        gregorian := updatedGregorianDate\<rparr>)))"
    unfolding handleMonthChange_def Let_def month_normal g1
    by (cases "lang = Np") (simp_all add: g2 Y_def M_def)
  show ?thesis
    unfolding Let_def Y_def [symmetric] M_def [symmetric] YA_def [symmetric] MA_def [symmetric]
    unfolding h n1
    by (cases "lang = Np") (simp_all add: bindE_def n2 g3 Let_def)
qed

lemma handleMonthChange_cases:
  assumes cd: "1 \<le> currentDay p"
    and py: "\<not> twoDigitYear (adYear (gregorian p))"
            "\<not> twoDigitYear (adYear (gregorian p) + (adMonth (gregorian p) + i) div 12)"
  shows "handleMonthChange orc lang p i =
     (if daysInBsMonth orc (bsYear (nepali p) + (bsMonth (nepali p) + i) div 12
                              + ((bsMonth (nepali p) + i) mod 12 + 1) div 12)
            (((bsMonth (nepali p) + i) mod 12 + 1) mod 12) \<le> 0
         \<or> daysInBsMonth orc (bsYear (nepali p) + (bsMonth (nepali p) + i) div 12)
              ((bsMonth (nepali p) + i) mod 12) \<le> 0
      then Inl UnsupportedEra else Inr (stepped orc lang p i))"
  unfolding handleMonthChange_eq [OF assms] stepped_def Let_def by simp

lemma stepped_fields:
  "bsYear (nepali (stepped orc lang p i)) = bsYear (nepali p) + (bsMonth (nepali p) + i) div 12"
  "bsMonth (nepali (stepped orc lang p i)) = (bsMonth (nepali p) + i) mod 12"
  "adYear (gregorian (stepped orc lang p i)) = adYear (gregorian p) + (adMonth (gregorian p) + i) div 12"
  "adMonth (gregorian (stepped orc lang p i)) = (adMonth (gregorian p) + i) mod 12"
  "bsDate (nepali (stepped orc lang p i)) =
     min (currentDay p) (daysInBsMonth orc (bsYear (nepali (stepped orc lang p i)))
                           (bsMonth (nepali (stepped orc lang p i))))"
  "adDate (gregorian (stepped orc lang p i)) =
     min (currentDay p) (daysInAdMonth (adYear (gregorian (stepped orc lang p i)))
                           (adMonth (gregorian (stepped orc lang p i))))"
  "selectedDate (stepped orc lang p i) =
     Some (if lang = Np then NepaliSel (nepali (stepped orc lang p i))
           else DateSel (gregorian (stepped orc lang p i)))"
  by (simp_all add: stepped_def Let_def)

lemma stepped_currentDay:
  "currentDay (stepped orc lang p i) =
     (if lang = Np then bsDate (nepali (stepped orc lang p i))
      else adDate (gregorian (stepped orc lang p i)))"
  by (simp add: currentDay_def stepped_fields(7) getDate_def)

lemma handleMonthChange_success:
  assumes cd: "1 \<le> currentDay p"
    and py: "\<not> twoDigitYear (adYear (gregorian p))"
            "\<not> twoDigitYear (adYear (gregorian p) + (adMonth (gregorian p) + i) div 12)"
    and ok: "handleMonthChange orc lang p i = Inr p'"
  shows "p' = stepped orc lang p i"
    and "0 < daysInBsMonth orc (bsYear (nepali p')) (bsMonth (nepali p'))"
proof -
  show p': "p' = stepped orc lang p i"
    using ok unfolding handleMonthChange_cases [OF cd py] by (simp split: if_splits)
  show "0 < daysInBsMonth orc (bsYear (nepali p')) (bsMonth (nepali p'))"
    using ok unfolding handleMonthChange_cases [OF cd py] p' stepped_fields
    by (simp split: if_splits)
qed

lemma handleMonthChange_selected:
  assumes "handleMonthChange orc lang p i = Inr p'"
  shows "sameDay orc (nepali p')
       \<and> selectedDate p' = Some (if lang = Np then NepaliSel (nepali p') else DateSel (gregorian p'))"
proof -
  let ?m = "bsMonth (nepali p) + i"
  let ?Y = "if ?m > 11 then bsYear (nepali p) + ?m div 12
             else if ?m < 0 then bsYear (nepali p) + ?m div 12
             else bsYear (nepali p)"
  let ?M = "if ?m > 11 then js_rem ?m 12
             else if ?m < 0 then js_rem (js_rem ?m 12 + 12) 12
             else ?m"
  from assms obtain l n where l: "NepaliDate_ymd orc ?Y (?M + 1) 0 = Inr l"
    and n: "NepaliDate_ymd orc ?Y ?M (min (currentDay p) (bsDate l)) = Inr n"
    and p': "nepali p' = n"
      "selectedDate p' = Some (if lang = Np then NepaliSel n else DateSel (gregorian p'))"
    unfolding handleMonthChange_def Let_def bindE_def
    by (cases "lang = Np") (auto split: sum.splits)
  show ?thesis using NepaliDate_ymd_sameDay [OF n] p' by (simp add: sameDay_def)
qed

text \<open>
  Runs of the sample oracle.
\<close>

lemma init_page_np: "init sample_oracle (Some ''2081-09-17'') Np = Inr page_picker_np"
  by code_simp

lemma init_today: "init sample_oracle None lang = Inr today_picker"
  by (cases lang; code_simp)

lemma month_change_back3:
  "handleMonthChange sample_oracle Np page_picker_np (- 3) =
     Inr \<lparr>selectedDate = Some (NepaliSel \<lparr>bsYear = 2081, bsMonth = 5, bsDate = 17,
                 toJsDate = \<lparr>adYear = 2024, adMonth = 9, adDate = 3\<rparr>\<rparr>),
          nepali = \<lparr>bsYear = 2081, bsMonth = 5, bsDate = 17,
                 toJsDate = \<lparr>adYear = 2024, adMonth = 9, adDate = 3\<rparr>\<rparr>,
          gregorian = \<lparr>adYear = 2024, adMonth = 9, adDate = 17\<rparr>, isOpen = False\<rparr>"
  by code_simp

lemma month_forward1:
  "handleMonthChange sample_oracle Np page_picker_np 1 =
       Inr \<lparr>selectedDate = Some (NepaliSel \<lparr>bsYear = 2081, bsMonth = 9, bsDate = 17,
                 toJsDate = \<lparr>adYear = 2025, adMonth = 0, adDate = 30\<rparr>\<rparr>),
            nepali = \<lparr>bsYear = 2081, bsMonth = 9, bsDate = 17,
                 toJsDate = \<lparr>adYear = 2025, adMonth = 0, adDate = 30\<rparr>\<rparr>,
            gregorian = \<lparr>adYear = 2025, adMonth = 1, adDate = 17\<rparr>, isOpen = False\<rparr>"
  by code_simp

lemma magh_picker_reached:
  "bindE (handleMonthChange sample_oracle Np page_picker_np 1)
     (\<lambda>p. handleDateSelect sample_oracle Np YYYY_MM_DD_slash p 30)
   = Inr (magh_picker,
          \<lparr>english = asc ''2025/03/02'',
           nepali_text = [2408, 2406, 2414, 2407, 47, 2406, 2415, 47, 2409, 2406]\<rparr>)"
  by code_simp

lemma magh_back:
  "handleMonthChange sample_oracle Np magh_picker (- 1) =
     Inr \<lparr>selectedDate = Some (NepaliSel \<lparr>bsYear = 2081, bsMonth = 8, bsDate = 29,
                 toJsDate = \<lparr>adYear = 2025, adMonth = 0, adDate = 13\<rparr>\<rparr>),
          nepali = \<lparr>bsYear = 2081, bsMonth = 8, bsDate = 29,
                 toJsDate = \<lparr>adYear = 2025, adMonth = 0, adDate = 13\<rparr>\<rparr>,
          gregorian = \<lparr>adYear = 2025, adMonth = 0, adDate = 30\<rparr>, isOpen = False\<rparr>"
  by code_simp

text \<open>
  C7, as the specification states it, fails: a month change can be rejected.  To get the
  length of the target month the handler asks for day 0 of the month after it, and the
  constructor throws when that month is outside the oracle's era.  From Falgun 2082 one
  month forward leads to Chaitra 2082, which the sample oracle knows (30 days), and the
  change fails.
\<close>

theorem advance_era_edge_counterexample:
  "handleMonthChange sample_oracle Np page_picker_np 14 = Inr falgun82_picker
   \<and> daysInBsMonth sample_oracle 2082 11 = 30
   \<and> handleMonthChange sample_oracle Np falgun82_picker 1 = Inl UnsupportedEra"
  by code_simp

text \<open>
  C7, amended.  For every integer \<open>delta\<close>, zero and negative ones included, a month change
  that succeeds moves the Bikram Sambat anchor to the year \<open>year + floor(newMonth / 12)\<close>
  and the month \<open>((newMonth % 12) + 12) % 12\<close>, where \<open>newMonth = month + delta\<close>, and
  moves the Gregorian anchor by the same rule on its own year and month.  No \<open>delta\<close> is
  rejected for its value: the only failure is the oracle's \<open>UnsupportedEra\<close>, and the change
  succeeds whenever the oracle knows the target month and the month after it.  The picker
  holds a selected day of at least 1 (or none), and the Gregorian years involved are not
  read as two-digit years by \<open>Date\<close>.
\<close>

theorem advance_normalises:
  assumes "1 \<le> currentDay p"
    and "\<not> twoDigitYear (adYear (gregorian p))"
    and "\<not> twoDigitYear (adYear (gregorian p) + (adMonth (gregorian p) + delta) div 12)"
  shows "(\<forall>p'. handleMonthChange orc lang p delta = Inr p' \<longrightarrow>
            bsYear (nepali p') = bsYear (nepali p) + (bsMonth (nepali p) + delta) div 12
          \<and> bsMonth (nepali p') = js_rem (js_rem (bsMonth (nepali p) + delta) 12 + 12) 12
          \<and> adYear (gregorian p') = adYear (gregorian p) + (adMonth (gregorian p) + delta) div 12
          \<and> adMonth (gregorian p') = js_rem (js_rem (adMonth (gregorian p) + delta) 12 + 12) 12)
       \<and> (\<forall>e. handleMonthChange orc lang p delta = Inl e \<longrightarrow> e = UnsupportedEra)
       \<and> (0 < daysInBsMonth orc (bsYear (nepali p) + (bsMonth (nepali p) + delta) div 12)
                ((bsMonth (nepali p) + delta) mod 12)
          \<and> 0 < daysInBsMonth orc (bsYear (nepali p) + (bsMonth (nepali p) + delta + 1) div 12)
                ((bsMonth (nepali p) + delta + 1) mod 12)
          \<longrightarrow> (\<exists>p'. handleMonthChange orc lang p delta = Inr p'))"
proof (intro conjI allI impI)
  fix p' assume ok: "handleMonthChange orc lang p delta = Inr p'"
  note s = handleMonthChange_success [OF assms ok]
  show "bsYear (nepali p') = bsYear (nepali p) + (bsMonth (nepali p) + delta) div 12"
    unfolding s(1) by (rule stepped_fields(1))
  show "bsMonth (nepali p') = js_rem (js_rem (bsMonth (nepali p) + delta) 12 + 12) 12"
    unfolding s(1) js_rem_twice by (rule stepped_fields(2))
  show "adYear (gregorian p') = adYear (gregorian p) + (adMonth (gregorian p) + delta) div 12"
    unfolding s(1) by (rule stepped_fields(3))
  show "adMonth (gregorian p') = js_rem (js_rem (adMonth (gregorian p) + delta) 12 + 12) 12"
    unfolding s(1) js_rem_twice by (rule stepped_fields(4))
next
  fix e assume "handleMonthChange orc lang p delta = Inl e"
  then show "e = UnsupportedEra"
    unfolding handleMonthChange_cases [OF assms] by (simp split: if_splits)
next
  let ?m = "bsMonth (nepali p) + delta"
  assume a: "0 < daysInBsMonth orc (bsYear (nepali p) + ?m div 12) (?m mod 12)
          \<and> 0 < daysInBsMonth orc (bsYear (nepali p) + (?m + 1) div 12) ((?m + 1) mod 12)"
  have d: "(?m + 1) div 12 = ?m div 12 + (?m mod 12 + 1) div 12"
    using div_add1_eq [of ?m 1 12] by simp
  have m: "(?m + 1) mod 12 = (?m mod 12 + 1) mod 12"
    using mod_add_left_eq [of ?m 12 1] by simp
  have "handleMonthChange orc lang p delta = Inr (stepped orc lang p delta)"
    unfolding handleMonthChange_cases [OF assms] using a unfolding d m
    by (simp add: add.assoc)
  then show "\<exists>p'. handleMonthChange orc lang p delta = Inr p'" by blast
qed

theorem advance_normalises_witness:
  "1 \<le> currentDay page_picker_np
   \<and> \<not> twoDigitYear (adYear (gregorian page_picker_np))
   \<and> \<not> twoDigitYear (adYear (gregorian page_picker_np)
          + (adMonth (gregorian page_picker_np) + (- 3)) div 12)
   \<and> handleMonthChange sample_oracle Np page_picker_np (- 3) =
     Inr \<lparr>selectedDate = Some (NepaliSel \<lparr>bsYear = 2081, bsMonth = 5, bsDate = 17,
                 toJsDate = \<lparr>adYear = 2024, adMonth = 9, adDate = 3\<rparr>\<rparr>),
          nepali = \<lparr>bsYear = 2081, bsMonth = 5, bsDate = 17,
                 toJsDate = \<lparr>adYear = 2024, adMonth = 9, adDate = 3\<rparr>\<rparr>,
          gregorian = \<lparr>adYear = 2024, adMonth = 9, adDate = 17\<rparr>, isOpen = False\<rparr>
   \<and> 0 < daysInBsMonth sample_oracle 2081 5 \<and> 0 < daysInBsMonth sample_oracle 2081 6
   \<and> js_rem (js_rem (8 + (- 3)) 12 + 12) 12 = 5
   \<and> js_rem (js_rem (0 + (- 3)) 12 + 12) 12 = 9
   \<and> (2025 :: int) + (0 + (- 3)) div 12 = 2024"
proof -
  have h1: "1 \<le> currentDay page_picker_np" by code_simp
  have h2: "\<not> twoDigitYear (adYear (gregorian page_picker_np))" by code_simp
  have h3: "\<not> twoDigitYear (adYear (gregorian page_picker_np)
              + (adMonth (gregorian page_picker_np) + (- 3)) div 12)" by code_simp
  have d: "0 < daysInBsMonth sample_oracle 2081 5" "0 < daysInBsMonth sample_oracle 2081 6"
    by code_simp+
  have r: "js_rem (js_rem (8 + (- 3)) 12 + 12) 12 = 5" "js_rem (js_rem (0 + (- 3)) 12 + 12) 12 = 9"
    by code_simp+
  from advance_normalises [OF h1 h2 h3, of sample_oracle Np]
  show ?thesis using h1 h2 h3 month_change_back3 d r by simp
qed

text \<open>
  C6.  After a month change, the day of each anchor is \<open>min(d, daysInMonth)\<close> of its own
  calendar's new month, where \<open>d\<close> is the day selected before (1 if none): the Bikram
  Sambat length comes from the oracle, the Gregorian one from \<open>daysInAdMonth\<close>, which
  is 28 or 29 for February by the leap test and 30 or 31 otherwise.  The new selected date
  is the anchor of the language's calendar, so it never exceeds the month's length.
\<close>

theorem advance_clamps:
  assumes "1 \<le> currentDay p"
    and "\<not> twoDigitYear (adYear (gregorian p))"
    and "\<not> twoDigitYear (adYear (gregorian p) + (adMonth (gregorian p) + delta) div 12)"
    and "handleMonthChange orc lang p delta = Inr p'"
  shows "bsDate (nepali p') =
           min (currentDay p) (daysInBsMonth orc (bsYear (nepali p')) (bsMonth (nepali p')))
       \<and> adDate (gregorian p') =
           min (currentDay p) (daysInAdMonth (adYear (gregorian p')) (adMonth (gregorian p')))
       \<and> selectedDate p' =
           Some (if lang = Np then NepaliSel (nepali p') else DateSel (gregorian p'))
       \<and> bsDate (nepali p') \<le> daysInBsMonth orc (bsYear (nepali p')) (bsMonth (nepali p'))
       \<and> adDate (gregorian p') \<le> daysInAdMonth (adYear (gregorian p')) (adMonth (gregorian p'))"
proof -
  note s = handleMonthChange_success [OF assms]
  have a: "bsDate (nepali p') =
           min (currentDay p) (daysInBsMonth orc (bsYear (nepali p')) (bsMonth (nepali p')))"
    unfolding s(1) by (rule stepped_fields(5))
  have b: "adDate (gregorian p') =
           min (currentDay p) (daysInAdMonth (adYear (gregorian p')) (adMonth (gregorian p')))"
    unfolding s(1) by (rule stepped_fields(6))
  have c: "selectedDate p' =
           Some (if lang = Np then NepaliSel (nepali p') else DateSel (gregorian p'))"
    unfolding s(1) by (rule stepped_fields(7))
  show ?thesis using a b c by simp
qed

theorem advance_clamps_witness:
  "1 \<le> currentDay magh_picker
   \<and> \<not> twoDigitYear (adYear (gregorian magh_picker))
   \<and> \<not> twoDigitYear (adYear (gregorian magh_picker) + (adMonth (gregorian magh_picker) + (- 1)) div 12)
   \<and> handleMonthChange sample_oracle Np magh_picker (- 1) =
     Inr \<lparr>selectedDate = Some (NepaliSel \<lparr>bsYear = 2081, bsMonth = 8, bsDate = 29,
                 toJsDate = \<lparr>adYear = 2025, adMonth = 0, adDate = 13\<rparr>\<rparr>),
          nepali = \<lparr>bsYear = 2081, bsMonth = 8, bsDate = 29,
                 toJsDate = \<lparr>adYear = 2025, adMonth = 0, adDate = 13\<rparr>\<rparr>,
          gregorian = \<lparr>adYear = 2025, adMonth = 0, adDate = 30\<rparr>, isOpen = False\<rparr>
   \<and> currentDay magh_picker = 30
   \<and> daysInBsMonth sample_oracle 2081 8 = 29
   \<and> min (30 :: int) 29 = 29"
proof -
  have h1: "1 \<le> currentDay magh_picker" by code_simp
  have h2: "\<not> twoDigitYear (adYear (gregorian magh_picker))" by code_simp
  have h3: "\<not> twoDigitYear (adYear (gregorian magh_picker)
              + (adMonth (gregorian magh_picker) + (- 1)) div 12)" by code_simp
  have c: "currentDay magh_picker = 30" by code_simp
  have d: "daysInBsMonth sample_oracle 2081 8 = 29" by code_simp
  from advance_clamps [OF h1 h2 h3 magh_back]
  show ?thesis using h1 h2 h3 magh_back c d by simp
qed

text \<open>
  The month indices of both anchors move by the sum of the increments of a run.
\<close>

lemma advances_index:
  assumes "advances orc lang p ds = Inr p'" "1 \<le> currentDay p"
    "fourDigitRun (12 * adYear (gregorian p) + adMonth (gregorian p)) ds"
    "0 \<le> adMonth (gregorian p)" "adMonth (gregorian p) \<le> 11"
    "0 \<le> bsMonth (nepali p)" "bsMonth (nepali p) \<le> 11"
  shows "12 * bsYear (nepali p') + bsMonth (nepali p')
           = 12 * bsYear (nepali p) + bsMonth (nepali p) + sum_list ds
       \<and> 12 * adYear (gregorian p') + adMonth (gregorian p')
           = 12 * adYear (gregorian p) + adMonth (gregorian p) + sum_list ds
       \<and> 0 \<le> bsMonth (nepali p') \<and> bsMonth (nepali p') \<le> 11
       \<and> 0 \<le> adMonth (gregorian p') \<and> adMonth (gregorian p') \<le> 11"
  using assms
proof (induction ds arbitrary: p)
  case Nil
  then show ?case by simp
next
  case (Cons d ds)
  let ?i = "12 * adYear (gregorian p) + adMonth (gregorian p)"
  have idiv: "?i div 12 = adYear (gregorian p)"
    using Cons.prems(4,5) by simp
  have "(?i + d) div 12 = (12 * adYear (gregorian p) + (adMonth (gregorian p) + d)) div 12"
    by (simp add: algebra_simps)
  also have "\<dots> = adYear (gregorian p) + (adMonth (gregorian p) + d) div 12"
    by simp
  finally have idiv': "(?i + d) div 12 = adYear (gregorian p) + (adMonth (gregorian p) + d) div 12" .
  have py: "\<not> twoDigitYear (adYear (gregorian p))"
           "\<not> twoDigitYear (adYear (gregorian p) + (adMonth (gregorian p) + d) div 12)"
    using Cons.prems(3) idiv idiv' by simp_all
  obtain p1 where p1: "handleMonthChange orc lang p d = Inr p1"
    and rest: "advances orc lang p1 ds = Inr p'"
    using Cons.prems(1) by (auto simp: bindE_def split: sum.splits)
  note s = handleMonthChange_success [OF Cons.prems(2) py p1]
  have f: "bsYear (nepali p1) = bsYear (nepali p) + (bsMonth (nepali p) + d) div 12"
    "bsMonth (nepali p1) = (bsMonth (nepali p) + d) mod 12"
    "adYear (gregorian p1) = adYear (gregorian p) + (adMonth (gregorian p) + d) div 12"
    "adMonth (gregorian p1) = (adMonth (gregorian p) + d) mod 12"
    unfolding s(1) by (simp_all add: stepped_fields)
  have ib: "12 * bsYear (nepali p1) + bsMonth (nepali p1)
              = 12 * bsYear (nepali p) + bsMonth (nepali p) + d"
    unfolding f by (simp add: algebra_simps) 
  have ia: "12 * adYear (gregorian p1) + adMonth (gregorian p1) = ?i + d"
    unfolding f by (simp add: algebra_simps)
  have cd1: "1 \<le> currentDay p1"
  proof -
    have "1 \<le> daysInAdMonth (adYear (gregorian p1)) (adMonth (gregorian p1))"
      using daysInAdMonth_pos [of "adYear (gregorian p1)" "adMonth (gregorian p1)"] by linarith
    moreover have "1 \<le> daysInBsMonth orc (bsYear (nepali p1)) (bsMonth (nepali p1))"
      using s(2) by linarith
    ultimately show ?thesis
      using Cons.prems(2) unfolding s(1) stepped_currentDay
      by (cases "lang = Np") (simp_all add: stepped_fields(5,6))
  qed
  have run1: "fourDigitRun (12 * adYear (gregorian p1) + adMonth (gregorian p1)) ds"
    unfolding ia using Cons.prems(3) by simp
  have m1: "0 \<le> adMonth (gregorian p1)" "adMonth (gregorian p1) \<le> 11"
    "0 \<le> bsMonth (nepali p1)" "bsMonth (nepali p1) \<le> 11"
    unfolding f by simp_all
  from Cons.IH [OF rest cd1 run1 m1]
  show ?case unfolding ib ia by simp
qed

lemma page_np_run: "advances sample_oracle Np page_picker_np [5, -12, 7] =
  Inr (page_picker_np\<lparr>gregorian := \<lparr>adYear = 2025, adMonth = 0, adDate = 17\<rparr>\<rparr>)"
  by code_simp

lemma page_np_current_day: "1 \<le> currentDay page_picker_np" by code_simp

lemma page_np_run_years: "fourDigitRun (12 * adYear (gregorian page_picker_np) + adMonth (gregorian page_picker_np)) [5, -12, 7]"
  by code_simp

text \<open>
  C8.  A run of month changes whose increments sum to 0 and that the oracle supports all
  along brings both anchors back to their year and month.  The picker starts with both
  months between 0 and 11 and a selected day of at least 1 (or none), and the Gregorian
  anchor keeps clear of the years 0 to 99.
\<close>

theorem advance_closure:
  assumes "advances orc lang p ds = Inr p'" "sum_list ds = 0" "1 \<le> currentDay p"
    "fourDigitRun (12 * adYear (gregorian p) + adMonth (gregorian p)) ds"
    "0 \<le> adMonth (gregorian p)" "adMonth (gregorian p) \<le> 11"
    "0 \<le> bsMonth (nepali p)" "bsMonth (nepali p) \<le> 11"
  shows "bsYear (nepali p') = bsYear (nepali p) \<and> bsMonth (nepali p') = bsMonth (nepali p)
       \<and> adYear (gregorian p') = adYear (gregorian p)
       \<and> adMonth (gregorian p') = adMonth (gregorian p)"
proof -
  note i = advances_index [OF assms(1) assms(3-8)]
  have b: "12 * bsYear (nepali p') + bsMonth (nepali p') = 12 * bsYear (nepali p) + bsMonth (nepali p)"
    and a: "12 * adYear (gregorian p') + adMonth (gregorian p') = 12 * adYear (gregorian p) + adMonth (gregorian p)"
    and r: "0 \<le> bsMonth (nepali p')" "bsMonth (nepali p') \<le> 11"
       "0 \<le> adMonth (gregorian p')" "adMonth (gregorian p') \<le> 11"
    using i assms(2) by simp_all
  have "bsYear (nepali p') = bsYear (nepali p)" using b r(1,2) assms(7,8) by linarith
  moreover have "adYear (gregorian p') = adYear (gregorian p)" using a r(3,4) assms(5,6) by linarith
  ultimately show ?thesis using a b by simp
qed

theorem advance_closure_witness:
  "advances sample_oracle Np page_picker_np [5, -12, 7] =
      Inr (page_picker_np\<lparr>gregorian := \<lparr>adYear = 2025, adMonth = 0, adDate = 17\<rparr>\<rparr>)
   \<and> sum_list [5, -12, 7 :: int] = 0
   \<and> 1 \<le> currentDay page_picker_np
   \<and> fourDigitRun (12 * adYear (gregorian page_picker_np) + adMonth (gregorian page_picker_np)) [5, -12, 7]
   \<and> bsYear (nepali (page_picker_np\<lparr>gregorian := \<lparr>adYear = 2025, adMonth = 0, adDate = 17\<rparr>\<rparr>)) = 2081
   \<and> bsMonth (nepali (page_picker_np\<lparr>gregorian := \<lparr>adYear = 2025, adMonth = 0, adDate = 17\<rparr>\<rparr>)) = 8
   \<and> adYear (gregorian (page_picker_np\<lparr>gregorian := \<lparr>adYear = 2025, adMonth = 0, adDate = 17\<rparr>\<rparr>)) = 2025
   \<and> adMonth (gregorian (page_picker_np\<lparr>gregorian := \<lparr>adYear = 2025, adMonth = 0, adDate = 17\<rparr>\<rparr>)) = 0"
proof -
  have s: "sum_list [5, -12, 7 :: int] = 0" by simp
  have m: "0 \<le> adMonth (gregorian page_picker_np)" "adMonth (gregorian page_picker_np) \<le> 11"
    "0 \<le> bsMonth (nepali page_picker_np)" "bsMonth (nepali page_picker_np) \<le> 11"
    by (simp_all add: page_picker_np_def poush17_def)
  from advance_closure [OF page_np_run s page_np_current_day page_np_run_years m]
  show ?thesis using page_np_run s page_np_current_day page_np_run_years by (simp add: page_picker_np_def poush17_def)
qed

section \<open>Selecting a day\<close>

lemma handleDateSelect_eq:
  "handleDateSelect orc lang format p d =
     (case NepaliDate_ymd orc (bsYear (nepali p)) (bsMonth (nepali p)) d of
        Inl e \<Rightarrow> Inl e
      | Inr n \<Rightarrow>
          Inr (p\<lparr>selectedDate :=
                    Some (if lang = Np then NepaliSel n
                          else DateSel (js_Date (adYear (gregorian p)) (adMonth (gregorian p)) d)),
                  isOpen := False\<rparr>,
               \<lparr>english = formatGregorianDate
                            (js_Date (adYear (gregorian p)) (adMonth (gregorian p)) d) format,
                nepali_text = formatNepaliDate (bsYear n) (bsMonth n) (bsDate n) format\<rparr>))"
  by (simp add: handleDateSelect_def bindE_def formatDate_def Let_def getMonth_def getDate_def
      split: sum.splits)


lemma select30:
   "handleDateSelect sample_oracle Np YYYY_MM_DD_slash page_picker_np 30 =
       Inr (page_picker_np\<lparr>selectedDate := Some (NepaliSel \<lparr>bsYear = 2081, bsMonth = 9, bsDate = 1,
                 toJsDate = \<lparr>adYear = 2025, adMonth = 0, adDate = 14\<rparr>\<rparr>)\<rparr>,
            \<lparr>english = asc ''2025/01/30'',
             nepali_text = [2408, 2406, 2414, 2407, 47, 2406, 2415, 47, 2406, 2407]\<rparr>)"
  by code_simp








section \<open>Initialisation and the page's example\<close>




text \<open>
  C3.  The page's example: the picker built from \<open>2081-09-17\<close> in \<open>np\<close>, formatted
  as \<open>YYYY/MM/DD\<close>.  The output is in Devanagari digits and zero-padded, but its month
  field is the month index 8, not 9: \<open>formatDate\<close> passes \<open>getMonth()\<close> on unchanged,
  where \<open>formatGregorianDate\<close> adds 1.
\<close>

theorem format_page_np_prints_month_index:
  "init sample_oracle (Some ''2081-09-17'') Np = Inr page_picker_np
   \<and> formatDate sample_oracle (selectedDate page_picker_np) Np YYYY_MM_DD_slash
       = Inr [2408, 2406, 2414, 2407, 47, 2406, 2414, 47, 2407, 2413]"
  by code_simp

section \<open>The DualDate invariant\<close>

text \<open>
  C1, as the specification states it, fails: a month change moves the two anchors
  independently.  One month forward from the page's picker, the Bikram Sambat anchor is
  17 Magh 2081, which is 30 January 2025, and the Gregorian anchor is 17 February 2025.
\<close>

theorem advance_anchor_counterexample:
  "init sample_oracle (Some ''2081-09-17'') Np = Inr page_picker_np
   \<and> handleMonthChange sample_oracle Np page_picker_np 1 =
       Inr \<lparr>selectedDate = Some (NepaliSel \<lparr>bsYear = 2081, bsMonth = 9, bsDate = 17,
                 toJsDate = \<lparr>adYear = 2025, adMonth = 0, adDate = 30\<rparr>\<rparr>),
            nepali = \<lparr>bsYear = 2081, bsMonth = 9, bsDate = 17,
                 toJsDate = \<lparr>adYear = 2025, adMonth = 0, adDate = 30\<rparr>\<rparr>,
            gregorian = \<lparr>adYear = 2025, adMonth = 1, adDate = 17\<rparr>, isOpen = False\<rparr>
   \<and> \<not> dualAnchor sample_oracle
         \<lparr>selectedDate = Some (NepaliSel \<lparr>bsYear = 2081, bsMonth = 9, bsDate = 17,
                 toJsDate = \<lparr>adYear = 2025, adMonth = 0, adDate = 30\<rparr>\<rparr>),
            nepali = \<lparr>bsYear = 2081, bsMonth = 9, bsDate = 17,
                 toJsDate = \<lparr>adYear = 2025, adMonth = 0, adDate = 30\<rparr>\<rparr>,
            gregorian = \<lparr>adYear = 2025, adMonth = 1, adDate = 17\<rparr>, isOpen = False\<rparr>"
  by code_simp

lemma init_dual:
  assumes "init orc v lang = Inr p"
  shows "toJsDate (nepali p) = gregorian p \<and> sameDay orc (nepali p)
       \<and> (selectedDate p = None \<or> selectedDate p = Some (NepaliSel (nepali p))
            \<or> selectedDate p = Some (DateSel (gregorian p)))"
proof (cases "case v of None \<Rightarrow> None | Some s \<Rightarrow> if s = [] then None else Some s")
  case None
  then obtain n where n: "NepaliDate_of_Date orc (today orc) = Inr n"
    and p: "p = \<lparr>selectedDate = None, nepali = n, gregorian = today orc, isOpen = False\<rparr>"
    using assms by (auto simp: init_def bindE_def split: sum.splits)
  show ?thesis using NepaliDate_of_Date_sameDay [OF n] unfolding p by (simp add: sameDay_def)
next
  case (Some s)
  then obtain nd where nd: "NepaliDate_of_string orc s = Inr nd"
    using assms by (auto simp: init_def bindE_def split: sum.splits)
  show ?thesis
  proof (cases "lang = Np")
    case True
    then have p: "p = \<lparr>selectedDate = Some (NepaliSel nd), nepali = nd,
                      gregorian = toJsDate nd, isOpen = False\<rparr>"
      using assms Some nd by (simp add: init_def bindE_def)
    have "sameDay orc nd"
      using nd NepaliDate_ymd_sameDay
      by (auto simp: NepaliDate_of_string_def sameDay_def split: option.splits)
    then show ?thesis unfolding p by simp
  next
    case False
    then obtain g n where g: "parseAd orc s = Some g" and n: "NepaliDate_of_Date orc g = Inr n"
      and p: "p = \<lparr>selectedDate = Some (DateSel g), nepali = n, gregorian = g, isOpen = False\<rparr>"
      using assms Some nd by (auto simp: init_def bindE_def split: option.splits sum.splits)
    show ?thesis using NepaliDate_of_Date_sameDay [OF n] unfolding p by (simp add: sameDay_def)
  qed
qed

text \<open>
  C1, amended.  A picker built by \<open>init\<close> satisfies the DualDate invariant: its two
  anchors are the same day by the oracle, and its selected date, if any, is that day.
  Selecting a day and changing the month keep the selected date one concrete day of the
  language's calendar: in \<open>np\<close> a \<open>NepaliDate\<close> whose \<open>Date\<close> is the oracle's
  conversion of its fields, in \<open>en\<close> a \<open>Date\<close>; and the Bikram Sambat anchor after a
  month change is such a \<open>NepaliDate\<close> too.
\<close>

theorem dual_date_by_construction:
  "(\<forall>p. init orc v lang = Inr p \<longrightarrow>
        dualAnchor orc p \<and> toJsDate (nepali p) = gregorian p \<and> sameDay orc (nepali p)
      \<and> (selectedDate p = None \<or> selectedDate p = Some (NepaliSel (nepali p))
            \<or> selectedDate p = Some (DateSel (gregorian p))))
   \<and> (\<forall>p' r. handleDateSelect orc lang format p d = Inr (p', r) \<longrightarrow>
        (\<exists>n. NepaliDate_ymd orc (bsYear (nepali p)) (bsMonth (nepali p)) d = Inr n
            \<and> sameDay orc n
            \<and> selectedDate p' =
                Some (if lang = Np then NepaliSel n
                      else DateSel (js_Date (adYear (gregorian p)) (adMonth (gregorian p)) d))))
   \<and> (\<forall>p'. handleMonthChange orc lang p i = Inr p' \<longrightarrow>
        sameDay orc (nepali p')
      \<and> selectedDate p' =
          Some (if lang = Np then NepaliSel (nepali p') else DateSel (gregorian p')))"
proof (intro conjI allI impI)
  fix q assume i: "init orc v lang = Inr q"
  note d = init_dual [OF i]
  show "toJsDate (nepali q) = gregorian q" "sameDay orc (nepali q)"
    "selectedDate q = None \<or> selectedDate q = Some (NepaliSel (nepali q))
       \<or> selectedDate q = Some (DateSel (gregorian q))"
    using d by simp_all
  show "dualAnchor orc q" using d by (auto simp: dualAnchor_def sameDay_def)
next
  fix p' r assume s: "handleDateSelect orc lang format p d = Inr (p', r)"
  then obtain n where n: "NepaliDate_ymd orc (bsYear (nepali p)) (bsMonth (nepali p)) d = Inr n"
    unfolding handleDateSelect_eq by (auto split: sum.splits)
  have "selectedDate p' =
          Some (if lang = Np then NepaliSel n
                else DateSel (js_Date (adYear (gregorian p)) (adMonth (gregorian p)) d))"
    using s unfolding handleDateSelect_eq n by auto
  moreover have "sameDay orc n" using NepaliDate_ymd_sameDay [OF n] by (simp add: sameDay_def)
  ultimately show "\<exists>n. NepaliDate_ymd orc (bsYear (nepali p)) (bsMonth (nepali p)) d = Inr n
            \<and> sameDay orc n
            \<and> selectedDate p' =
                Some (if lang = Np then NepaliSel n
                      else DateSel (js_Date (adYear (gregorian p)) (adMonth (gregorian p)) d))"
    using n by blast
next
  fix p' assume "handleMonthChange orc lang p i = Inr p'"
  then show "sameDay orc (nepali p')"
    "selectedDate p' = Some (if lang = Np then NepaliSel (nepali p') else DateSel (gregorian p'))"
    using handleMonthChange_selected by blast+
qed

theorem dual_date_by_construction_witness:
  "init sample_oracle (Some ''2081-09-17'') Np = Inr page_picker_np
   \<and> dualAnchor sample_oracle page_picker_np
   \<and> toJsDate (nepali page_picker_np) = gregorian page_picker_np
   \<and> sameDay sample_oracle (nepali page_picker_np)
   \<and> selectedDate page_picker_np = Some (NepaliSel (nepali page_picker_np))
   \<and> handleDateSelect sample_oracle Np YYYY_MM_DD_slash page_picker_np 30 =
       Inr (page_picker_np\<lparr>selectedDate := Some (NepaliSel \<lparr>bsYear = 2081, bsMonth = 9, bsDate = 1,
                 toJsDate = \<lparr>adYear = 2025, adMonth = 0, adDate = 14\<rparr>\<rparr>)\<rparr>,
            \<lparr>english = asc ''2025/01/30'',
             nepali_text = [2408, 2406, 2414, 2407, 47, 2406, 2415, 47, 2406, 2407]\<rparr>)
   \<and> sameDay sample_oracle \<lparr>bsYear = 2081, bsMonth = 9, bsDate = 1,
                 toJsDate = \<lparr>adYear = 2025, adMonth = 0, adDate = 14\<rparr>\<rparr>
   \<and> handleMonthChange sample_oracle Np page_picker_np 1 =
       Inr \<lparr>selectedDate = Some (NepaliSel \<lparr>bsYear = 2081, bsMonth = 9, bsDate = 17,
                 toJsDate = \<lparr>adYear = 2025, adMonth = 0, adDate = 30\<rparr>\<rparr>),
            nepali = \<lparr>bsYear = 2081, bsMonth = 9, bsDate = 17,
                 toJsDate = \<lparr>adYear = 2025, adMonth = 0, adDate = 30\<rparr>\<rparr>,
            gregorian = \<lparr>adYear = 2025, adMonth = 1, adDate = 17\<rparr>, isOpen = False\<rparr>
   \<and> sameDay sample_oracle \<lparr>bsYear = 2081, bsMonth = 9, bsDate = 17,
                 toJsDate = \<lparr>adYear = 2025, adMonth = 0, adDate = 30\<rparr>\<rparr>"
proof -
  note t = dual_date_by_construction [of sample_oracle "Some ''2081-09-17''" Np
      YYYY_MM_DD_slash page_picker_np 30 1]
  have a: "dualAnchor sample_oracle page_picker_np"
    "toJsDate (nepali page_picker_np) = gregorian page_picker_np"
    "sameDay sample_oracle (nepali page_picker_np)"
    using t init_page_np by blast+
  have b: "selectedDate page_picker_np = Some (NepaliSel (nepali page_picker_np))"
    by (simp add: page_picker_np_def)
  have c: "sameDay sample_oracle \<lparr>bsYear = 2081, bsMonth = 9, bsDate = 17,
                 toJsDate = \<lparr>adYear = 2025, adMonth = 0, adDate = 30\<rparr>\<rparr>"
    using t month_forward1 by fastforce
  have d: "sameDay sample_oracle \<lparr>bsYear = 2081, bsMonth = 9, bsDate = 1,
                 toJsDate = \<lparr>adYear = 2025, adMonth = 0, adDate = 14\<rparr>\<rparr>"
    by code_simp
  show ?thesis using init_page_np a b c d select30 month_forward1 by simp
qed

text \<open>
  What \<open>onDateChange\<close> receives on a click is formatted from two dates built apart:
  the Gregorian one pairs the clicked day number with the Gregorian anchor's year and month.
  On the page's picker, a click on day 20 reports 20 January 2025 next to 20 Poush 2081,
  which is 4 January 2025.
\<close>

lemma select_report_pairs_day_number:
  "handleDateSelect sample_oracle Np YYYY_MM_DD_slash page_picker_np 20 =
     Inr (page_picker_np\<lparr>selectedDate := Some (NepaliSel \<lparr>bsYear = 2081, bsMonth = 8, bsDate = 20,
               toJsDate = \<lparr>adYear = 2025, adMonth = 0, adDate = 4\<rparr>\<rparr>)\<rparr>,
          \<lparr>english = asc ''2025/01/20'',
           nepali_text = [2408, 2406, 2414, 2407, 47, 2406, 2414, 47, 2408, 2406]\<rparr>)
   \<and> formatGregorianDate (bsToAd sample_oracle 2081 8 20) YYYY_MM_DD_slash = asc ''2025/01/04''"
  by code_simp

section \<open>The range labels\<close>

text \<open>
  C2.  For a Gregorian anchor the range label is not what the claim says: the Nepali range
  is computed from the Bikram Sambat anchor alone, as its month and the month after it.
  For the picker built on 31 January 2025 in \<open>en\<close> the header shows Magh/Falgun under
  January 2025, while the first and the last day of January 2025 convert to Poush and Magh.
\<close>

theorem nepali_range_ignores_gregorian_month:
  "init sample_oracle None En = Inr today_picker
   \<and> secondaryMonthRange sample_oracle En today_picker
       = Inr [2350, 2366, 2328, 47, 2347, 2366, 2327, 2369, 2344]
   \<and> spec_nepaliMonthRange sample_oracle (adYear (gregorian today_picker))
         (adMonth (gregorian today_picker))
       = Some [2346, 2380, 2359, 47, 2350, 2366, 2328]"
  by code_simp

text \<open>
  What the four range functions compute from a Bikram Sambat anchor.  The Gregorian ranges
  are the specification's: the first day and the last day of the anchor month are converted
  by the oracle, and one value is printed when the two agree, else both, joined by \<open>/\<close>
  (months) or \<open>-\<close> (years), the first one first.  The Nepali ranges are the name of the
  anchor month and the name of the month after it, and the years of these two months.
\<close>

lemma range_labels_by_anchor:
  assumes "0 \<le> bsMonth n" "bsMonth n \<le> 11"
    and "0 < daysInBsMonth orc (bsYear n) (bsMonth n)"
    and "0 < daysInBsMonth orc (bsYear n + (bsMonth n + 1) div 12) ((bsMonth n + 1) mod 12)"
  shows "getGregorianMonthRange orc n = Inr (spec_gregorianMonthRange orc (bsYear n) (bsMonth n))
     \<and> getGregorianYearRange orc n = Inr (spec_gregorianYearRange orc (bsYear n) (bsMonth n))
     \<and> (0 < daysInBsMonth orc (bsYear n + (bsMonth n + 2) div 12) ((bsMonth n + 2) mod 12) \<longrightarrow>
          getNepaliMonthRange orc n =
            Inr (js_show (js_index MONTH_NAMES_np (bsMonth n)) @ asc ''/''
                   @ js_show (js_index MONTH_NAMES_np ((bsMonth n + 1) mod 12)))
        \<and> getNepaliYearRange orc n =
            Inr (if bsMonth n = 11
                 then toNepaliNumeral (bsYear n) @ asc ''-'' @ toNepaliNumeral (bsYear n + 1)
                 else toNepaliNumeral (bsYear n)))"
proof -
  have first: "NepaliDate_ymd orc (bsYear n) (bsMonth n) 1 =
      Inr \<lparr>bsYear = bsYear n, bsMonth = bsMonth n, bsDate = 1,
           toJsDate = bsToAd orc (bsYear n) (bsMonth n) 1\<rparr>"
    using assms(1-3) by (intro NepaliDate_ymd_in_month) simp_all
  have last: "NepaliDate_ymd orc (bsYear n) (bsMonth n + 1) 0 =
      Inr \<lparr>bsYear = bsYear n, bsMonth = bsMonth n,
           bsDate = daysInBsMonth orc (bsYear n) (bsMonth n),
           toJsDate = bsToAd orc (bsYear n) (bsMonth n) (daysInBsMonth orc (bsYear n) (bsMonth n))\<rparr>"
    unfolding NepaliDate_ymd_last [OF assms(1,2)] using assms(3,4) by simp
  have g1: "getGregorianMonthRange orc n = Inr (spec_gregorianMonthRange orc (bsYear n) (bsMonth n))"
    by (simp add: getGregorianMonthRange_def first last bindE_def spec_gregorianMonthRange_def
        spec_range_def)
  have g2: "getGregorianYearRange orc n = Inr (spec_gregorianYearRange orc (bsYear n) (bsMonth n))"
    by (simp add: getGregorianYearRange_def first last bindE_def spec_gregorianYearRange_def
        Let_def)
  have n12: "0 < daysInBsMonth orc (bsYear n + (bsMonth n + 2) div 12) ((bsMonth n + 2) mod 12) \<Longrightarrow>
          getNepaliMonthRange orc n =
            Inr (js_show (js_index MONTH_NAMES_np (bsMonth n)) @ asc ''/''
                   @ js_show (js_index MONTH_NAMES_np ((bsMonth n + 1) mod 12)))
        \<and> getNepaliYearRange orc n =
            Inr (if bsMonth n = 11
                 then toNepaliNumeral (bsYear n) @ asc ''-'' @ toNepaliNumeral (bsYear n + 1)
                 else toNepaliNumeral (bsYear n))"
  proof -
    assume s: "0 < daysInBsMonth orc (bsYear n + (bsMonth n + 2) div 12) ((bsMonth n + 2) mod 12)"
    note l2 = NepaliDate_ymd_after_next [OF assms(1,2,4) s]
    have ne: "bsMonth n \<noteq> (bsMonth n + 1) mod 12"
    proof (cases "bsMonth n = 11")
      case True then show ?thesis by simp
    next
      case False
      then have "(bsMonth n + 1) mod 12 = bsMonth n + 1" using assms(1,2) by simp
      then show ?thesis by simp
    qed
    have yr: "bsYear n + (bsMonth n + 1) div 12 = (if bsMonth n = 11 then bsYear n + 1 else bsYear n)"
      using assms(1,2) by simp
    have a: "getNepaliMonthRange orc n =
            Inr (js_show (js_index MONTH_NAMES_np (bsMonth n)) @ asc ''/''
                   @ js_show (js_index MONTH_NAMES_np ((bsMonth n + 1) mod 12)))"
      using ne by (simp add: getNepaliMonthRange_def first l2 bindE_def)
    have b: "getNepaliYearRange orc n =
            Inr (if bsMonth n = 11
                 then toNepaliNumeral (bsYear n) @ asc ''-'' @ toNepaliNumeral (bsYear n + 1)
                 else toNepaliNumeral (bsYear n))"
      unfolding getNepaliYearRange_def first l2 bindE_def using yr by simp
    show ?thesis using a b by simp
  qed
  show ?thesis using g1 g2 n12 by blast
qed

lemma range_labels_by_anchor_example:
  "0 \<le> bsMonth poush17 \<and> bsMonth poush17 \<le> 11
   \<and> 0 < daysInBsMonth sample_oracle (bsYear poush17) (bsMonth poush17)
   \<and> 0 < daysInBsMonth sample_oracle (bsYear poush17 + (bsMonth poush17 + 1) div 12)
           ((bsMonth poush17 + 1) mod 12)
   \<and> 0 < daysInBsMonth sample_oracle (bsYear poush17 + (bsMonth poush17 + 2) div 12)
           ((bsMonth poush17 + 2) mod 12)
   \<and> getGregorianMonthRange sample_oracle poush17 = Inr (asc ''Dec/Jan'')
   \<and> spec_gregorianMonthRange sample_oracle 2081 8 = asc ''Dec/Jan''
   \<and> getGregorianYearRange sample_oracle poush17 = Inr (asc ''2024-2025'')
   \<and> getNepaliMonthRange sample_oracle poush17 = Inr [2346, 2380, 2359, 47, 2350, 2366, 2328]
   \<and> getNepaliYearRange sample_oracle poush17 = Inr [2408, 2406, 2414, 2407]"
proof -
  have h: "0 \<le> bsMonth poush17" "bsMonth poush17 \<le> 11"
    "0 < daysInBsMonth sample_oracle (bsYear poush17) (bsMonth poush17)"
    "0 < daysInBsMonth sample_oracle (bsYear poush17 + (bsMonth poush17 + 1) div 12)
           ((bsMonth poush17 + 1) mod 12)"
    by code_simp+
  have k: "0 < daysInBsMonth sample_oracle (bsYear poush17 + (bsMonth poush17 + 2) div 12)
           ((bsMonth poush17 + 2) mod 12)"
    by code_simp
  have v: "spec_gregorianMonthRange sample_oracle (bsYear poush17) (bsMonth poush17) = asc ''Dec/Jan''"
    "spec_gregorianMonthRange sample_oracle 2081 8 = asc ''Dec/Jan''"
    "spec_gregorianYearRange sample_oracle (bsYear poush17) (bsMonth poush17) = asc ''2024-2025''"
    "js_show (js_index MONTH_NAMES_np (bsMonth poush17)) @ asc ''/''
       @ js_show (js_index MONTH_NAMES_np ((bsMonth poush17 + 1) mod 12))
     = [2346, 2380, 2359, 47, 2350, 2366, 2328]"
    "(if bsMonth poush17 = 11
      then toNepaliNumeral (bsYear poush17) @ asc ''-'' @ toNepaliNumeral (bsYear poush17 + 1)
      else toNepaliNumeral (bsYear poush17)) = [2408, 2406, 2414, 2407]"
    by code_simp+
  from range_labels_by_anchor [OF h] k
  show ?thesis using h v by simp
qed

end
